theory Spec2Isabelle
  imports Main "HOL-Library.Word" "HOL-Library.AList"
begin

unbundle bit_operations_syntax

chapter \<open>AgentCP client SDK: protocol codecs, cursor store, request correlation\<close>

section \<open>Definitions\<close>

subsection \<open>UDP codec: varints (protocol/heartbeat\_protocol.cpp)\<close>

text \<open>
  \<^verbatim>\<open>EncodeVarint\<close> pushes the low seven bits of the value with the continuation bit
  set while the value is at least \<open>0x80\<close>, then the remaining value. The vector built
  by \<^verbatim>\<open>push_back\<close> is the list in emission order.
  \<^verbatim>\<open>DecodeVarint(data, len, bytes_read)\<close> is the loop over \<open>i < len && i < 10\<close>;
  the pair returned is (value, \<^verbatim>\<open>*bytes_read\<close>), and the fall-through of the loop
  gives \<open>(0, 0)\<close>.
\<close>

type_synonym u8 = "8 word"
type_synonym u64 = "64 word"

function EncodeVarint :: "u64 \<Rightarrow> u8 list" where
  "EncodeVarint v =
     (if v \<ge> 0x80
      then ucast ((v AND 0x7F) OR 0x80) # EncodeVarint (drop_bit 7 v)
      else [ucast v])"
  by pat_completeness auto
termination
  apply (relation "measure unat")
   apply simp
  apply (simp add: unat_drop_bit_eq word_le_nat_alt)
  apply (simp add: drop_bit_eq_div)
  done

function DecodeVarint_loop :: "u8 list \<Rightarrow> nat \<Rightarrow> nat \<Rightarrow> u64 \<Rightarrow> u64 \<times> nat" where
  "DecodeVarint_loop data i shift v =
     (if i < length data \<and> i < 10 then
        (let v' = v OR push_bit shift (ucast (data ! i AND 0x7F));
             shift' = shift + 7
         in if data ! i AND 0x80 = 0 then (v', i + 1)
            else DecodeVarint_loop data (i + 1) shift' v')
      else (0, 0))"
  by pat_completeness auto
termination
  by (relation "measure (\<lambda>(data, i, shift, v). 10 - i)") auto

definition DecodeVarint :: "u8 list \<Rightarrow> u64 \<times> nat" where
  "DecodeVarint data = DecodeVarint_loop data 0 0 0"


subsection \<open>Cursor store (group/cursor\_store.cpp)\<close>

text \<open>
  \<^verbatim>\<open>LocalCursorStore\<close> keeps \<^verbatim>\<open>std::map<std::string, CursorEntry> cursors_\<close>, a
  \<^verbatim>\<open>dirty_\<close> flag and the \<^verbatim>\<open>file_path_\<close>. The cursor values are \<^verbatim>\<open>int64_t\<close>;
  the store only compares and copies them, so they are integers here.
  \<^verbatim>\<open>cursors_[group_id]\<close> inserts the default entry \<open>{0, 0}\<close> when the group is absent.

  The file system is a map from paths to contents. A content is either a JSON object of
  the shape \<^verbatim>\<open>Write\<close> produces, given by the entries it holds, or text that
  \<^verbatim>\<open>json::parse\<close> rejects (then \<^verbatim>\<open>Load\<close> swallows the exception and loads nothing).
  \<^verbatim>\<open>Write\<close> takes a flag telling whether \<^verbatim>\<open>ofs.is_open()\<close> holds.
\<close>

record CursorEntry =
  msg_cursor :: int
  event_cursor :: int

datatype file_content = Unparsable | CursorJson "string \<rightharpoonup> CursorEntry"

type_synonym file_system = "string \<rightharpoonup> file_content"

record LocalCursorStore =
  file_path :: string
  dirty :: bool
  cursors :: "string \<rightharpoonup> CursorEntry"

definition default_entry :: CursorEntry where
  "default_entry = \<lparr>msg_cursor = 0, event_cursor = 0\<rparr>"

definition entry_at :: "LocalCursorStore \<Rightarrow> string \<Rightarrow> CursorEntry" where
  "entry_at s group_id = (case cursors s group_id of None \<Rightarrow> default_entry | Some e \<Rightarrow> e)"

definition SaveMsgCursor :: "LocalCursorStore \<Rightarrow> string \<Rightarrow> int \<Rightarrow> LocalCursorStore" where
  "SaveMsgCursor s group_id v =
     (let entry = entry_at s group_id in
      if v > msg_cursor entry
      then s\<lparr>cursors := (cursors s)(group_id \<mapsto> entry\<lparr>msg_cursor := v\<rparr>), dirty := True\<rparr>
      else s\<lparr>cursors := (cursors s)(group_id \<mapsto> entry)\<rparr>)"

definition SaveEventCursor :: "LocalCursorStore \<Rightarrow> string \<Rightarrow> int \<Rightarrow> LocalCursorStore" where
  "SaveEventCursor s group_id v =
     (let entry = entry_at s group_id in
      if v > event_cursor entry
      then s\<lparr>cursors := (cursors s)(group_id \<mapsto> entry\<lparr>event_cursor := v\<rparr>), dirty := True\<rparr>
      else s\<lparr>cursors := (cursors s)(group_id \<mapsto> entry)\<rparr>)"

definition LoadCursor :: "LocalCursorStore \<Rightarrow> string \<Rightarrow> int \<times> int" where
  "LoadCursor s group_id =
     (case cursors s group_id of
        None \<Rightarrow> (0, 0)
      | Some e \<Rightarrow> (msg_cursor e, event_cursor e))"

definition RemoveCursor :: "LocalCursorStore \<Rightarrow> string \<Rightarrow> LocalCursorStore" where
  "RemoveCursor s group_id =
     (case cursors s group_id of
        None \<Rightarrow> s
      | Some e \<Rightarrow> s\<lparr>cursors := (cursors s)(group_id := None), dirty := True\<rparr>)"

definition Write :: "bool \<Rightarrow> file_system \<times> LocalCursorStore \<Rightarrow> file_system \<times> LocalCursorStore" where
  "Write is_open = (\<lambda>(fs, s).
     if is_open then (fs(file_path s \<mapsto> CursorJson (cursors s)), s\<lparr>dirty := False\<rparr>)
     else (fs, s))"

definition Flush :: "bool \<Rightarrow> file_system \<times> LocalCursorStore \<Rightarrow> file_system \<times> LocalCursorStore" where
  "Flush is_open = (\<lambda>(fs, s).
     if file_path s = [] \<or> \<not> dirty s then (fs, s) else Write is_open (fs, s))"

definition Close :: "bool \<Rightarrow> file_system \<times> LocalCursorStore \<Rightarrow> file_system \<times> LocalCursorStore" where
  "Close is_open = Flush is_open"

definition Load :: "file_system \<Rightarrow> LocalCursorStore \<Rightarrow> LocalCursorStore" where
  "Load fs s =
     (case fs (file_path s) of
        None \<Rightarrow> s
      | Some Unparsable \<Rightarrow> s
      | Some (CursorJson j) \<Rightarrow> s\<lparr>cursors := (\<lambda>k. case j k of None \<Rightarrow> cursors s k | Some e \<Rightarrow> Some e)\<rparr>)"

definition LocalCursorStore_new :: "file_system \<Rightarrow> string \<Rightarrow> LocalCursorStore" where
  "LocalCursorStore_new fs path =
     (let s = \<lparr>file_path = path, dirty = False, cursors = Map.empty\<rparr>
      in if path \<noteq> [] then Load fs s else s)"

datatype store_op = SaveMsg string int | SaveEvent string int | Remove string | FlushOp bool

fun apply_store_op :: "store_op \<Rightarrow> file_system \<times> LocalCursorStore \<Rightarrow> file_system \<times> LocalCursorStore" where
  "apply_store_op (SaveMsg g v) (fs, s) = (fs, SaveMsgCursor s g v)"
| "apply_store_op (SaveEvent g v) (fs, s) = (fs, SaveEventCursor s g v)"
| "apply_store_op (Remove g) (fs, s) = (fs, RemoveCursor s g)"
| "apply_store_op (FlushOp is_open) (fs, s) = Flush is_open (fs, s)"

definition SaveMsgCursors :: "LocalCursorStore \<Rightarrow> string \<Rightarrow> int list \<Rightarrow> LocalCursorStore" where
  "SaveMsgCursors s g vs = fold (\<lambda>v s. SaveMsgCursor s g v) vs s"

definition SaveEventCursors :: "LocalCursorStore \<Rightarrow> string \<Rightarrow> int list \<Rightarrow> LocalCursorStore" where
  "SaveEventCursors s g vs = fold (\<lambda>v s. SaveEventCursor s g v) vs s"

definition file_agrees :: "file_system \<Rightarrow> LocalCursorStore \<Rightarrow> bool" where
  "file_agrees fs s \<longleftrightarrow>
     (\<forall>g. LoadCursor (LocalCursorStore_new fs (file_path s)) g = LoadCursor s g)"

definition store_inv :: "file_system \<times> LocalCursorStore \<Rightarrow> bool" where
  "store_inv = (\<lambda>(fs, s). file_path s \<noteq> [] \<and> (dirty s \<or> file_agrees fs s))"

subsection \<open>Group URL parsing (group/group\_operations.cpp)\<close>

text \<open>
  \<^verbatim>\<open>std::string::find\<close> returns the first position of a substring or character, or
  \<^verbatim>\<open>npos\<close> (\<open>None\<close>); \<^verbatim>\<open>substr(pos)\<close> is \<open>drop\<close> and \<^verbatim>\<open>substr(0, n)\<close> is
  \<open>take\<close>. The three \<^verbatim>\<open>std::runtime_error\<close>s of \<^verbatim>\<open>ParseGroupUrl\<close> are the three
  values of \<open>url_error\<close>, in the order of the source.
\<close>

fun find_str :: "string \<Rightarrow> string \<Rightarrow> nat option" where
  "find_str [] needle = (if needle = [] then Some 0 else None)"
| "find_str (c # cs) needle =
     (if take (length needle) (c # cs) = needle then Some 0
      else map_option Suc (find_str cs needle))"

fun find_char :: "string \<Rightarrow> char \<Rightarrow> nat option" where
  "find_char [] c = None"
| "find_char (x # xs) c = (if x = c then Some 0 else map_option Suc (find_char xs c))"

function strip_trailing_slashes :: "string \<Rightarrow> string" where
  "strip_trailing_slashes path =
     (if path \<noteq> [] \<and> last path = CHR ''/'' then strip_trailing_slashes (butlast path)
      else path)"
  by pat_completeness auto
termination
  by (relation "measure length") auto


datatype url_error = NoScheme | NoPath | MissingTargetOrGroup

record ParsedGroupUrl =
  target_aid :: string
  group_id :: string

definition ParseGroupUrl :: "string \<Rightarrow> url_error + ParsedGroupUrl" where
  "ParseGroupUrl group_url =
     (case find_str group_url ''://'' of
        None \<Rightarrow> Inl NoScheme
      | Some scheme_end \<Rightarrow>
          (let url = drop (scheme_end + 3) group_url in
           case find_char url CHR ''/'' of
             None \<Rightarrow> Inl NoPath
           | Some slash_pos \<Rightarrow>
               if slash_pos = 0 then Inl NoPath
               else
                 (let host = take slash_pos url;
                      path = drop (slash_pos + 1) url;
                      path = (case find_char path CHR ''?'' of
                                Some query_pos \<Rightarrow> take query_pos path | None \<Rightarrow> path);
                      path = (case find_char path CHR ''#'' of
                                Some frag_pos \<Rightarrow> take frag_pos path | None \<Rightarrow> path);
                      path = strip_trailing_slashes path
                  in if host = [] \<or> path = [] then Inl MissingTargetOrGroup
                     else Inr \<lparr>target_aid = host, group_id = path\<rparr>)))"

text \<open>
  The spec's words for the result, "the first path segment of the URL": what follows the
  slash that ends the host, up to the next \<open>/\<close>, \<open>?\<close> or \<open>#\<close>.
\<close>

definition spec_first_path_segment :: "string \<Rightarrow> string" where
  "spec_first_path_segment group_url =
     (case find_str group_url ''://'' of
        None \<Rightarrow> []
      | Some i \<Rightarrow>
          takeWhile (\<lambda>c. c \<notin> {CHR ''/'', CHR ''?'', CHR ''#''})
            (drop 1 (dropWhile (\<lambda>c. c \<noteq> CHR ''/'') (drop (i + 3) group_url))))"


text \<open>Cutting the path at the first \<open>?\<close> and then at the first \<open>#\<close>.\<close>

definition cut_query_fragment :: "string \<Rightarrow> string" where
  "cut_query_fragment path =
     (let path = (case find_char path CHR ''?'' of
                    Some query_pos \<Rightarrow> take query_pos path | None \<Rightarrow> path);
          path = (case find_char path CHR ''#'' of
                    Some frag_pos \<Rightarrow> take frag_pos path | None \<Rightarrow> path)
      in path)"

subsection \<open>Session manager (session\_manager.cpp)\<close>

text \<open>
  The manager's state is the owner's AID and whether the agent is online, whether the
  message client's WebSocket is connected, the map \<^verbatim>\<open>sessions_\<close> and the
  \<^verbatim>\<open>invite_agent_req\<close> envelopes sent so far (session, inviter, invitee).
  \<^verbatim>\<open>sessions_.emplace\<close> leaves an existing key untouched.

  \<^verbatim>\<open>CreateSession\<close> takes the environment as arguments: \<open>ack\<close> is the session id of the
  \<^verbatim>\<open>create_session_ack\<close> that \<^verbatim>\<open>SendAndWaitAck\<close> returned and
  \<^verbatim>\<open>ParseCreateSessionAck\<close> parsed (\<open>None\<close> when there was none),
  \<open>generated_id\<close> is what \<^verbatim>\<open>GenerateId("session")\<close> returns, and \<open>now\<close> is the
  clock in milliseconds. The session id written through \<^verbatim>\<open>session_id_out\<close> is returned
  with the new state. \<open>initial_members\<close> is the loop that pushes the members after the
  owner, \<open>invite_members\<close> the loop that calls \<^verbatim>\<open>InviteAgent\<close> for each of them.
\<close>

record SessionMember =
  agent_id :: string
  role :: string
  joined_at :: "64 word"

record Session =
  session_id :: string
  members :: "SessionMember list"
  session_closed :: bool

datatype ErrorCode = INVALID_ARGUMENT | NOT_INITIALIZED | SESSION_NOT_FOUND

record SessionManager =
  owner_aid :: string
  owner_online :: bool
  ws_connected :: bool
  sessions :: "string \<rightharpoonup> Session"
  invites_sent :: "(string \<times> string \<times> string) list"

definition emplace :: "('k \<rightharpoonup> 'v) \<Rightarrow> 'k \<Rightarrow> 'v \<Rightarrow> ('k \<rightharpoonup> 'v)" where
  "emplace m k v = (case m k of None \<Rightarrow> m(k \<mapsto> v) | Some _ \<Rightarrow> m)"

definition InviteAgent ::
  "SessionManager \<Rightarrow> string \<Rightarrow> string \<Rightarrow> 64 word \<Rightarrow> ErrorCode option \<times> SessionManager" where
  "InviteAgent mgr sid aid now =
     (if sid = [] \<or> aid = [] then (Some INVALID_ARGUMENT, mgr)
      else
        (let mgr = (if ws_connected mgr
                    then mgr\<lparr>invites_sent := invites_sent mgr @ [(sid, owner_aid mgr, aid)]\<rparr>
                    else mgr)
         in case sessions mgr sid of
              None \<Rightarrow> (Some SESSION_NOT_FOUND, mgr)
            | Some session \<Rightarrow>
                if list_ex (\<lambda>member. agent_id member = aid) (members session) then (None, mgr)
                else
                  (let m = \<lparr>agent_id = aid, role = ''member'', joined_at = now\<rparr>
                   in (None, mgr\<lparr>sessions := (sessions mgr)
                         (sid \<mapsto> session\<lparr>members := members session @ [m]\<rparr>)\<rparr>))))"

fun initial_members :: "SessionMember \<Rightarrow> string list \<Rightarrow> SessionMember list \<Rightarrow> SessionMember list" where
  "initial_members owner_member [] acc = acc"
| "initial_members owner_member (member_id # rest) acc =
     (if member_id = [] \<or> member_id = agent_id owner_member
      then initial_members owner_member rest acc
      else initial_members owner_member rest
             (acc @ [\<lparr>agent_id = member_id, role = ''member'',
                      joined_at = joined_at owner_member\<rparr>]))"

fun invite_members :: "SessionManager \<Rightarrow> string \<Rightarrow> string list \<Rightarrow> 64 word \<Rightarrow> SessionManager" where
  "invite_members mgr sid [] now = mgr"
| "invite_members mgr sid (member_id # rest) now =
     (if member_id = [] \<or> member_id = owner_aid mgr then invite_members mgr sid rest now
      else invite_members (snd (InviteAgent mgr sid member_id now)) sid rest now)"

definition CreateSession ::
  "SessionManager \<Rightarrow> string list \<Rightarrow> string option \<Rightarrow> string \<Rightarrow> 64 word
     \<Rightarrow> ErrorCode + (string \<times> SessionManager)" where
  "CreateSession mgr member_ids ack generated_id now =
     (if \<not> owner_online mgr then Inl NOT_INITIALIZED
      else
        (let owner_member = \<lparr>agent_id = owner_aid mgr, role = ''owner'', joined_at = now\<rparr>;
             recorded = initial_members owner_member member_ids [owner_member]
         in case (if ws_connected mgr \<and> ack \<noteq> Some [] then ack else None) of
              Some sid \<Rightarrow>
                (let session = \<lparr>session_id = sid, members = recorded, session_closed = False\<rparr>;
                     mgr = mgr\<lparr>sessions := emplace (sessions mgr) sid session\<rparr>;
                     mgr = invite_members mgr sid member_ids now
                 in Inr (sid, mgr))
            | None \<Rightarrow>
                (let session = \<lparr>session_id = generated_id, members = recorded,
                                session_closed = False\<rparr>
                 in Inr (generated_id,
                         mgr\<lparr>sessions := emplace (sessions mgr) generated_id session\<rparr>))))"

definition members_of :: "ErrorCode + (string \<times> SessionManager) \<Rightarrow> (string \<times> string) list" where
  "members_of r =
     (case r of
        Inl e \<Rightarrow> []
      | Inr (sid, mgr) \<Rightarrow>
          (case sessions mgr sid of
             None \<Rightarrow> []
           | Some s \<Rightarrow> map (\<lambda>m. (agent_id m, role m)) (members s)))"

definition alice :: SessionManager where
  "alice = \<lparr>owner_aid = ''alice.aid.net'', owner_online = True, ws_connected = True,
            sessions = Map.empty, invites_sent = []\<rparr>"

subsection \<open>UDP codec and heartbeat receive loop (protocol/heartbeat\_protocol.cpp, client/heartbeat\_client.cpp)\<close>

text \<open>
  A \<^verbatim>\<open>std::string\<close> carried in a datagram is its bytes. A pointer into the receive buffer
  with the remaining length is the buffer dropped to that offset. An offset never passes
  the length of the buffer, so offsets are natural numbers; \<^verbatim>\<open>size_t\<close> is taken to have
  64 bits, and the one sum that can wrap, the guard \<^verbatim>\<open>*offset + str_len > len\<close> of
  \<^verbatim>\<open>ReadVarintString\<close>, is computed on 64-bit words. When the sum wraps (it is then below
  \<^verbatim>\<open>str_len\<close>) and passes the guard, the length is at least \<open>2 ^ 64 - len\<close>, above
  \<^verbatim>\<open>max_size()\<close> of a string, and the constructor \<^verbatim>\<open>std::string(ptr, str_len)\<close> throws
  \<^verbatim>\<open>std::length_error\<close>: the result \<open>Inl length_error\<close>, which
  \<^verbatim>\<open>InviteMessageReq::Deserialize\<close> passes on.
  \<^verbatim>\<open>int64_t invite_code_expire\<close> keeps the 64 bits that \<^verbatim>\<open>ReadBE64Signed\<close> copies. The
  deserialisers return the value and the advanced offset.

  \<open>ReceiveLoop_step\<close> is one iteration of \<^verbatim>\<open>HeartbeatClient::ReceiveLoop\<close> on a datagram
  that arrives at the socket (an empty one stands for \<^verbatim>\<open>n <= 0\<close>). \<^verbatim>\<open>RecvFrom\<close> copies at
  most \<^verbatim>\<open>sizeof(buffer) = 1536\<close> bytes of it, the rest of a longer datagram is cut off.
  The step returns the new client state and the effects in order, namely the call to
  \<^verbatim>\<open>Reauthenticate\<close>, the call of the invite callback when one is registered, and the
  datagram handed to \<^verbatim>\<open>SendTo\<close>; these three calls are taken to return. An exception
  of the deserialiser is caught by the \<^verbatim>\<open>catch (...)\<close> of the loop body: the iteration
  ends with no effect and the state unchanged.
  \<open>invite_response\<close> is the \<^verbatim>\<open>InviteMessageResp\<close> the loop fills in: a default-constructed
  value with the header, \<^verbatim>\<open>agent_id\<close>, \<^verbatim>\<open>inviter_agent_id\<close> and \<^verbatim>\<open>sign_cookie\<close> assigned.
\<close>

type_synonym u16 = "16 word"
type_synonym bytes = "u8 list"

definition WriteBE16 :: "bytes \<Rightarrow> u16 \<Rightarrow> bytes" where
  "WriteBE16 buf v = buf @ [ucast (drop_bit 8 v AND 0xFF), ucast (v AND 0xFF)]"

definition WriteBE64 :: "bytes \<Rightarrow> u64 \<Rightarrow> bytes" where
  "WriteBE64 buf v = buf @ map (\<lambda>i. ucast (drop_bit (i * 8) v AND 0xFF)) [7, 6, 5, 4, 3, 2, 1, 0]"

definition ReadBE16 :: "bytes \<Rightarrow> u16" where
  "ReadBE16 p = push_bit 8 (ucast (p ! 0)) OR ucast (p ! 1)"

definition ReadBE64 :: "bytes \<Rightarrow> u64" where
  "ReadBE64 p = fold (\<lambda>i v. push_bit 8 v OR ucast (p ! i)) [0, 1, 2, 3, 4, 5, 6, 7] 0"

definition ReadBE64Signed :: "bytes \<Rightarrow> u64" where
  "ReadBE64Signed p = ReadBE64 p"

definition WriteVarintString :: "bytes \<Rightarrow> bytes \<Rightarrow> bytes" where
  "WriteVarintString buf s = buf @ EncodeVarint (of_nat (length s)) @ s"

datatype codec_exception = length_error

definition ReadVarintString :: "bytes \<Rightarrow> nat \<Rightarrow> codec_exception + bytes \<times> nat" where
  "ReadVarintString data offset =
     (let (str_len, bytes_read) = DecodeVarint (drop offset data);
          offset = offset + bytes_read
      in if (of_nat offset + str_len :: u64) > of_nat (length data) then Inr ([], offset)
         else if (of_nat offset + str_len :: u64) < str_len then Inl length_error
         else Inr (take (unat str_len) (drop offset data), offset + unat str_len))"

record UdpMessageHeader =
  message_mask :: u64
  message_seq :: u64
  message_type :: u16
  payload_size :: u16

definition UdpMessageHeader_Serialize :: "UdpMessageHeader \<Rightarrow> bytes" where
  "UdpMessageHeader_Serialize h =
     WriteBE16 (WriteBE16 (EncodeVarint (message_mask h) @ EncodeVarint (message_seq h))
                  (message_type h)) (payload_size h)"

definition UdpMessageHeader_Deserialize :: "bytes \<Rightarrow> nat \<Rightarrow> UdpMessageHeader \<times> nat" where
  "UdpMessageHeader_Deserialize data offset =
     (let (mask, bytes_read) = DecodeVarint (drop offset data);
          offset = offset + bytes_read;
          (seq, bytes_read) = DecodeVarint (drop offset data);
          offset = offset + bytes_read;
          h = \<lparr>message_mask = mask, message_seq = seq, message_type = 0, payload_size = 0\<rparr>
      in if offset + 4 > length data then (h, offset)
         else (h\<lparr>message_type := ReadBE16 (drop offset data),
                 payload_size := ReadBE16 (drop (offset + 2) data)\<rparr>, offset + 4))"

definition MSG_TYPE_HEARTBEAT_REQ :: u16 where "MSG_TYPE_HEARTBEAT_REQ = 513"
definition MSG_TYPE_HEARTBEAT_RESP :: u16 where "MSG_TYPE_HEARTBEAT_RESP = 258"
definition MSG_TYPE_INVITE_REQ :: u16 where "MSG_TYPE_INVITE_REQ = 259"
definition MSG_TYPE_INVITE_RESP :: u16 where "MSG_TYPE_INVITE_RESP = 516"

record HeartbeatMessageResp =
  hb_header :: UdpMessageHeader
  next_beat :: u64

definition HeartbeatMessageResp_Deserialize :: "bytes \<Rightarrow> HeartbeatMessageResp" where
  "HeartbeatMessageResp_Deserialize data =
     (let (h, offset) = UdpMessageHeader_Deserialize data 0
      in \<lparr>hb_header = h,
          next_beat = (if offset + 8 \<le> length data then ReadBE64 (drop offset data) else 0)\<rparr>)"

record InviteMessageReq =
  req_header :: UdpMessageHeader
  req_inviter_agent_id :: bytes
  req_invite_code :: bytes
  req_invite_code_expire :: u64
  req_session_id :: bytes
  req_message_server :: bytes

definition InviteMessageReq_Deserialize :: "bytes \<Rightarrow> codec_exception + InviteMessageReq" where
  "InviteMessageReq_Deserialize data =
     (let (h, offset) = UdpMessageHeader_Deserialize data 0 in
      (case ReadVarintString data offset of
         Inl e \<Rightarrow> Inl e
       | Inr (inviter, offset) \<Rightarrow>
      (case ReadVarintString data offset of
         Inl e \<Rightarrow> Inl e
       | Inr (code, offset) \<Rightarrow>
      (let (expire, offset) = (if offset + 8 \<le> length data
                               then (ReadBE64Signed (drop offset data), offset + 8)
                               else (0, offset)) in
      (case ReadVarintString data offset of
         Inl e \<Rightarrow> Inl e
       | Inr (sid, offset) \<Rightarrow>
      (case ReadVarintString data offset of
         Inl e \<Rightarrow> Inl e
       | Inr (server, offset) \<Rightarrow>
          Inr \<lparr>req_header = h, req_inviter_agent_id = inviter, req_invite_code = code,
               req_invite_code_expire = expire, req_session_id = sid,
               req_message_server = server\<rparr>))))))"

record InviteMessageResp =
  resp_header :: UdpMessageHeader
  resp_agent_id :: bytes
  resp_inviter_agent_id :: bytes
  resp_session_id :: bytes
  resp_sign_cookie :: u64

definition InviteMessageResp_default :: InviteMessageResp where
  "InviteMessageResp_default =
     \<lparr>resp_header = \<lparr>message_mask = 0, message_seq = 0, message_type = 0, payload_size = 0\<rparr>,
      resp_agent_id = [], resp_inviter_agent_id = [], resp_session_id = [], resp_sign_cookie = 0\<rparr>"

definition InviteMessageResp_Serialize :: "InviteMessageResp \<Rightarrow> bytes" where
  "InviteMessageResp_Serialize r =
     WriteBE64
       (WriteVarintString
          (WriteVarintString
             (WriteVarintString (UdpMessageHeader_Serialize (resp_header r)) (resp_agent_id r))
             (resp_inviter_agent_id r))
          (resp_session_id r))
       (resp_sign_cookie r)"

record HeartbeatClient =
  hc_agent_id :: bytes
  server_ip :: string
  port :: int
  sign_cookie :: u64
  heartbeat_interval_ms :: u64
  hc_msg_seq :: u64
  has_invite_callback :: bool
  socket_valid :: bool

datatype effect =
    Reauthenticate
  | InviteCallback InviteMessageReq
  | SendTo bytes string u16

definition invite_response :: "HeartbeatClient \<Rightarrow> InviteMessageReq \<Rightarrow> u64 \<Rightarrow> InviteMessageResp" where
  "invite_response hc invite_req seq =
     InviteMessageResp_default
       \<lparr>resp_header := \<lparr>message_mask = 0, message_seq = seq,
                         message_type = MSG_TYPE_INVITE_RESP, payload_size = 0\<rparr>,
        resp_agent_id := hc_agent_id hc,
        resp_inviter_agent_id := req_inviter_agent_id invite_req,
        resp_sign_cookie := sign_cookie hc\<rparr>"

definition ReceiveLoop_step :: "HeartbeatClient \<Rightarrow> bytes \<Rightarrow> HeartbeatClient \<times> effect list" where
  "ReceiveLoop_step hc datagram =
     (if \<not> socket_valid hc then (hc, [])
      else if datagram = [] then (hc, [])
      else
        (let buffer = take 1536 datagram;
             (header, offset) = UdpMessageHeader_Deserialize buffer 0 in
         if message_type header = MSG_TYPE_HEARTBEAT_RESP then
           (let resp = HeartbeatMessageResp_Deserialize buffer in
            if next_beat resp = 401 then (hc, [Reauthenticate])
            else (hc\<lparr>heartbeat_interval_ms :=
                        (if next_beat resp < 5000 then 5000 else next_beat resp)\<rparr>, []))
         else if message_type header = MSG_TYPE_INVITE_REQ then
           (case InviteMessageReq_Deserialize buffer of
              Inl e \<Rightarrow> (hc, [])
            | Inr invite_req \<Rightarrow>
                (let called = (if has_invite_callback hc then [InviteCallback invite_req] else []);
                     seq = hc_msg_seq hc + 1;
                     resp = invite_response hc invite_req seq;
                     data = InviteMessageResp_Serialize resp
                 in (hc\<lparr>hc_msg_seq := seq\<rparr>,
                     called @ [SendTo data (server_ip hc) (word_of_int (port hc))])))
         else (hc, [])))"

definition invite_datagram :: bytes where
  "invite_datagram =
     [0x00, 0x07, 0x01, 0x03, 0x00, 0x00,
      0x03, 0x62, 0x6F, 0x62,
      0x02, 0x63, 0x31,
      0x00, 0x00, 0x00, 0x00, 0x00, 0x00, 0x00, 0x09,
      0x02, 0x73, 0x31,
      0x01, 0x6D]"

definition hc0 :: HeartbeatClient where
  "hc0 = \<lparr>hc_agent_id = [0x61], server_ip = ''10.0.0.1'', port = 9000, sign_cookie = 5,
           heartbeat_interval_ms = 5000, hc_msg_seq = 0, has_invite_callback = True,
           socket_valid = True\<rparr>"

definition invite_request :: InviteMessageReq where
  "invite_request =
     \<lparr>req_header = \<lparr>message_mask = 0, message_seq = 7, message_type = 259, payload_size = 0\<rparr>,
      req_inviter_agent_id = [0x62, 0x6F, 0x62], req_invite_code = [0x63, 0x31],
      req_invite_code_expire = 9, req_session_id = [0x73, 0x31], req_message_server = [0x6D]\<rparr>"

definition huge_length_datagram :: bytes where
  "huge_length_datagram =
     [0x00, 0x07, 0x01, 0x03, 0x00, 0x00,
      0xFF, 0xFF, 0xFF, 0xFF, 0xFF, 0xFF, 0xFF, 0xFF, 0xFF, 0x01]"

subsection \<open>Pending requests: Group Client and Message Client (group/group\_client.cpp, client/message\_client.cpp)\<close>

text \<open>
  A pending request is a \<^verbatim>\<open>std::shared_ptr<PendingRequest>\<close> held both by the map
  \<^verbatim>\<open>pending_reqs_\<close> and by the caller blocked in \<^verbatim>\<open>SendRequest\<close>. The model keeps the
  objects in a store indexed by reference; the map is an association list from request
  id to reference (\<^verbatim>\<open>operator[]=\<close> is \<open>AList.update\<close>, \<^verbatim>\<open>erase\<close> is \<open>AList.delete\<close>,
  \<^verbatim>\<open>find\<close> is \<open>map_of\<close>). Every function body that runs under \<^verbatim>\<open>pending_mutex_\<close> is
  one atomic step. \<^verbatim>\<open>SendRequest\<close> is cut at its \<^verbatim>\<open>wait_for\<close>: \<open>SendRequest_begin\<close> is
  the code up to the wait, \<open>SendRequest_wake\<close> the code after it, where \<^verbatim>\<open>got_it\<close> is
  the value of the wait predicate \<^verbatim>\<open>ready || cancelled\<close> when the wait returns.
  \<open>SendRequest\<close> runs both with the steps of other threads (incoming payloads, a call
  of \<^verbatim>\<open>Close\<close>) in between.

  The environment is given as arguments: \<open>now\<close> is the clock of \<^verbatim>\<open>NextRequestId\<close>,
  \<open>sent\<close> is what the call of \<^verbatim>\<open>send_func_\<close> does: it returns, it throws a
  \<^verbatim>\<open>std::exception\<close> (which the \<^verbatim>\<open>catch (const std::exception&)\<close> clause around the
  call handles), or it throws a value of another type, which no clause of
  \<^verbatim>\<open>SendRequest\<close> handles and which leaves the function as it is. The payload handed to
  \<^verbatim>\<open>send_func_\<close> is recorded by its parts; the JSON text built by
  \<^verbatim>\<open>BuildRequestJson\<close> is not modelled.

  An incoming payload is text that \<^verbatim>\<open>json::parse\<close> rejects, or JSON that is not an
  object, or a JSON object. An object is given by the members that \<^verbatim>\<open>HandleIncoming\<close>
  reads. A member read with \<^verbatim>\<open>value(key, default)\<close> is absent (the accessor returns the
  default), present with a value of the type asked for, or present with a value of
  another type: then the accessor throws \<^verbatim>\<open>type_error\<close>, as it does for every key when
  the JSON is not an object. An integer member holds the number that \<^verbatim>\<open>get\<close> converts
  it to. \<open>j_data\<close> is the member \<^verbatim>\<open>data\<close> when it is present and not null: its dump
  and, when it is an object, the members that the push branches read from it.
  \<open>HandleIncoming\<close> returns the exception that leaves the function, if any, with the
  state at that point; what the two \<^verbatim>\<open>try\<close> blocks of the push branches catch does not
  leave it. The calls made on the event handler are recorded in the state and taken to
  return; the number of calls of \<^verbatim>\<open>Close\<close> on the cursor store is recorded as well.

  The Message Client's \<^verbatim>\<open>ack_waiters_\<close> is modelled the same way. An inbound WebSocket
  message is either text that \<^verbatim>\<open>ParseEnvelope\<close> rejects or an envelope together with
  the string \<^verbatim>\<open>request_id\<close> found in its data, if any: there is none when the data
  is not JSON, has no such member, or has one that is not a string, and in each of these
  cases \<^verbatim>\<open>OnWsMessage\<close> goes on to the message handler.
\<close>

type_synonym ref = nat

record GroupResponse =
  gr_action :: string
  gr_request_id :: string
  gr_code :: int
  gr_group_id :: string
  gr_data_json :: string
  gr_error :: string

definition GroupResponse_default :: GroupResponse where
  "GroupResponse_default =
     \<lparr>gr_action = [], gr_request_id = [], gr_code = -1, gr_group_id = [],
      gr_data_json = [], gr_error = []\<rparr>"

record GroupNotify =
  gn_action :: string
  gn_group_id :: string
  gn_event :: string
  gn_data_json :: string
  gn_timestamp :: int

record PendingRequest =
  pr_request_id :: string
  pr_response :: GroupResponse
  pr_ready :: bool
  pr_cancelled :: bool

definition PendingRequest_default :: PendingRequest where
  "PendingRequest_default =
     \<lparr>pr_request_id = [], pr_response = GroupResponse_default,
      pr_ready = False, pr_cancelled = False\<rparr>"

datatype 'a member = Absent | Mistyped | Present 'a

datatype json_exception = type_error

definition json_value :: "'a member \<Rightarrow> 'a \<Rightarrow> json_exception + 'a" where
  "json_value field dflt =
     (case field of Absent \<Rightarrow> Inr dflt | Mistyped \<Rightarrow> Inl type_error | Present v \<Rightarrow> Inr v)"

record message_json =
  mj_msg_id :: "int member"
  mj_sender :: "string member"
  mj_content :: "string member"
  mj_content_type :: "string member"
  mj_timestamp :: "int member"
  mj_metadata :: "string option"

datatype array_element = ElementNotObject | MessageObject message_json

record data_object =
  d_message :: message_json
  d_start_msg_id :: "int member"
  d_latest_msg_id :: "int member"
  d_count :: "int member"
  d_messages :: "array_element list option"

datatype data_shape = DataNotObject | DataObject data_object

record json_object =
  j_action :: "string member"
  j_request_id :: "string member"
  j_code :: "int member"
  j_group_id :: "string member"
  j_error :: "string member"
  j_event :: "string member"
  j_timestamp :: "int member"
  j_data :: "(string \<times> data_shape) option"

datatype group_payload = Malformed | NotAnObject | JsonObject json_object

definition data_dump :: "json_object \<Rightarrow> string" where
  "data_dump j = (case j_data j of None \<Rightarrow> [] | Some (dump, shape) \<Rightarrow> dump)"

definition ParseResponse :: "json_object \<Rightarrow> json_exception + GroupResponse" where
  "ParseResponse j =
     (case json_value (j_action j) [] of Inl e \<Rightarrow> Inl e | Inr action \<Rightarrow>
     (case json_value (j_request_id j) [] of Inl e \<Rightarrow> Inl e | Inr request_id \<Rightarrow>
     (case json_value (j_code j) (-1) of Inl e \<Rightarrow> Inl e | Inr code \<Rightarrow>
     (case json_value (j_group_id j) [] of Inl e \<Rightarrow> Inl e | Inr gid \<Rightarrow>
     (case json_value (j_error j) [] of Inl e \<Rightarrow> Inl e | Inr error \<Rightarrow>
        Inr \<lparr>gr_action = action, gr_request_id = request_id, gr_code = code,
             gr_group_id = gid, gr_data_json = data_dump j, gr_error = error\<rparr>)))))"

definition ParseNotify :: "json_object \<Rightarrow> json_exception + GroupNotify" where
  "ParseNotify j =
     (case json_value (j_action j) ''group_notify'' of Inl e \<Rightarrow> Inl e | Inr action \<Rightarrow>
     (case json_value (j_group_id j) [] of Inl e \<Rightarrow> Inl e | Inr gid \<Rightarrow>
     (case json_value (j_event j) [] of Inl e \<Rightarrow> Inl e | Inr event \<Rightarrow>
     (case json_value (j_timestamp j) 0 of Inl e \<Rightarrow> Inl e | Inr timestamp \<Rightarrow>
        Inr \<lparr>gn_action = action, gn_group_id = gid, gn_event = event,
             gn_data_json = data_dump j, gn_timestamp = timestamp\<rparr>))))"

record GroupMessage =
  gm_msg_id :: int
  gm_sender :: string
  gm_content :: string
  gm_content_type :: string
  gm_timestamp :: int
  gm_metadata_json :: string

record GroupMessageBatch =
  gb_messages :: "GroupMessage list"
  gb_start_msg_id :: int
  gb_latest_msg_id :: int
  gb_count :: int

definition read_message :: "message_json \<Rightarrow> string \<Rightarrow> json_exception + GroupMessage" where
  "read_message m default_content_type =
     (case json_value (mj_msg_id m) 0 of Inl e \<Rightarrow> Inl e | Inr msg_id \<Rightarrow>
     (case json_value (mj_sender m) [] of Inl e \<Rightarrow> Inl e | Inr sender \<Rightarrow>
     (case json_value (mj_content m) [] of Inl e \<Rightarrow> Inl e | Inr content \<Rightarrow>
     (case json_value (mj_content_type m) default_content_type of Inl e \<Rightarrow> Inl e
      | Inr content_type \<Rightarrow>
     (case json_value (mj_timestamp m) 0 of Inl e \<Rightarrow> Inl e | Inr timestamp \<Rightarrow>
        Inr \<lparr>gm_msg_id = msg_id, gm_sender = sender, gm_content = content,
             gm_content_type = content_type, gm_timestamp = timestamp,
             gm_metadata_json = (case mj_metadata m of None \<Rightarrow> [] | Some dump \<Rightarrow> dump)\<rparr>)))))"

fun read_batch_messages :: "array_element list \<Rightarrow> json_exception + GroupMessage list" where
  "read_batch_messages [] = Inr []"
| "read_batch_messages (ElementNotObject # ms) = read_batch_messages ms"
| "read_batch_messages (MessageObject m # ms) =
     (case read_message m ''text/plain'' of
        Inl e \<Rightarrow> Inl e
      | Inr msg \<Rightarrow>
          (case read_batch_messages ms of Inl e \<Rightarrow> Inl e | Inr msgs \<Rightarrow> Inr (msg # msgs)))"

definition read_batch :: "data_shape \<Rightarrow> json_exception + GroupMessageBatch" where
  "read_batch shape =
     (case shape of
        DataNotObject \<Rightarrow> Inl type_error
      | DataObject batch_data \<Rightarrow>
          (case json_value (d_start_msg_id batch_data) 0 of Inl e \<Rightarrow> Inl e | Inr start \<Rightarrow>
          (case json_value (d_latest_msg_id batch_data) 0 of Inl e \<Rightarrow> Inl e | Inr latest \<Rightarrow>
          (case json_value (d_count batch_data) 0 of Inl e \<Rightarrow> Inl e | Inr count \<Rightarrow>
          (case (case d_messages batch_data of None \<Rightarrow> Inr [] | Some ms \<Rightarrow> read_batch_messages ms) of
             Inl e \<Rightarrow> Inl e
           | Inr msgs \<Rightarrow>
               Inr \<lparr>gb_messages = msgs, gb_start_msg_id = start, gb_latest_msg_id = latest,
                    gb_count = count\<rparr>)))))"

datatype handler_call =
    DispatchAcpNotify GroupNotify
  | OnGroupMessage string GroupMessage
  | OnGroupMessageBatch string GroupMessageBatch

record ACPGroupClient =
  gc_agent_id :: string
  closed :: bool
  seq_id :: int
  req_timeout_ms :: int
  pending_reqs :: "(string \<times> ref) list"
  objects :: "ref \<Rightarrow> PendingRequest"
  next_ref :: ref
  has_handler :: bool
  handler_calls :: "handler_call list"
  has_cursor_store :: bool
  store_close_calls :: nat
  send_func_calls :: "(string \<times> string \<times> string \<times> string \<times> string) list"

definition digit_char :: "nat \<Rightarrow> char" where
  "digit_char d = ''0123456789'' ! d"

function decimal :: "nat \<Rightarrow> string" where
  "decimal n = (if n < 10 then [digit_char n] else decimal (n div 10) @ [digit_char (n mod 10)])"
  by pat_completeness auto

termination
  by (relation "measure id") auto

definition show_int :: "int \<Rightarrow> string" where
  "show_int i = (if i < 0 then CHR ''-'' # decimal (nat (- i)) else decimal (nat i))"

definition NextRequestId :: "ACPGroupClient \<Rightarrow> int \<Rightarrow> string \<times> ACPGroupClient" where
  "NextRequestId c now =
     (let seq = seq_id c + 1
      in (gc_agent_id c @ ''-'' @ show_int now @ ''-'' @ show_int seq, c\<lparr>seq_id := seq\<rparr>))"

datatype request_error =
    ClientClosed
  | SendFailed
  | RequestCancelled string
  | RequestTimeout string string
  | ForeignException

datatype send_outcome = SendReturns | SendThrowsStdException | SendThrowsOther

datatype begin_result = Threw request_error | Waiting string ref int

definition SendRequest_begin ::
  "ACPGroupClient \<Rightarrow> string \<Rightarrow> string \<Rightarrow> string \<Rightarrow> string \<Rightarrow> int \<Rightarrow> int \<Rightarrow> send_outcome
     \<Rightarrow> begin_result \<times> ACPGroupClient" where
  "SendRequest_begin c target gid action params_json timeout_ms now sent =
     (if closed c then (Threw ClientClosed, c)
      else
        (let (req_id, c) = NextRequestId c now;
             effective_timeout = (if timeout_ms > 0 then timeout_ms else req_timeout_ms c);
             pending = next_ref c;
             c = c\<lparr>objects := (objects c)(pending := PendingRequest_default\<lparr>pr_request_id := req_id\<rparr>),
                   next_ref := pending + 1\<rparr>;
             c = c\<lparr>pending_reqs := AList.update req_id pending (pending_reqs c)\<rparr>;
             c = c\<lparr>send_func_calls := send_func_calls c @ [(target, action, req_id, gid, params_json)]\<rparr>
         in case sent of
              SendThrowsStdException \<Rightarrow>
                (Threw SendFailed, c\<lparr>pending_reqs := AList.delete req_id (pending_reqs c)\<rparr>)
            | SendThrowsOther \<Rightarrow> (Threw ForeignException, c)
            | SendReturns \<Rightarrow> (Waiting req_id pending effective_timeout, c)))"

definition SendRequest_wake ::
  "ACPGroupClient \<Rightarrow> string \<Rightarrow> string \<Rightarrow> string \<Rightarrow> ref
     \<Rightarrow> (request_error + GroupResponse) \<times> ACPGroupClient" where
  "SendRequest_wake c gid action req_id pending =
     (let got_it = (pr_ready (objects c pending) \<or> pr_cancelled (objects c pending));
          c = c\<lparr>pending_reqs := AList.delete req_id (pending_reqs c)\<rparr>
      in if pr_cancelled (objects c pending) then (Inl (RequestCancelled req_id), c)
         else if \<not> got_it then (Inl (RequestTimeout action gid), c)
         else (Inr (pr_response (objects c pending)), c))"

definition call_handler :: "ACPGroupClient \<Rightarrow> handler_call list \<Rightarrow> ACPGroupClient" where
  "call_handler c calls = c\<lparr>handler_calls := handler_calls c @ calls\<rparr>"

definition message_push :: "ACPGroupClient \<Rightarrow> json_object \<Rightarrow> string \<Rightarrow> data_shape \<Rightarrow> ACPGroupClient" where
  "message_push c j dump shape =
     (case shape of
        DataNotObject \<Rightarrow> c
      | DataObject msg_data \<Rightarrow>
          (case read_message (d_message msg_data) ''text'' of
             Inl e \<Rightarrow> c
           | Inr msg \<Rightarrow>
               if has_handler c then
                 (case json_value (j_group_id j) [] of
                    Inl e \<Rightarrow> c
                  | Inr gid \<Rightarrow>
                      call_handler c
                        [OnGroupMessage gid msg,
                         DispatchAcpNotify
                           \<lparr>gn_action = ''group_notify'', gn_group_id = gid,
                            gn_event = ''group_message'', gn_data_json = dump,
                            gn_timestamp = gm_timestamp msg\<rparr>])
               else c))"

definition message_batch_push :: "ACPGroupClient \<Rightarrow> json_object \<Rightarrow> data_shape \<Rightarrow> ACPGroupClient" where
  "message_batch_push c j shape =
     (case read_batch shape of
        Inl e \<Rightarrow> c
      | Inr batch \<Rightarrow>
          if has_handler c then
            (case json_value (j_group_id j) [] of
               Inl e \<Rightarrow> c
             | Inr gid \<Rightarrow> call_handler c [OnGroupMessageBatch gid batch])
          else c)"

definition HandleIncoming_unmatched ::
  "ACPGroupClient \<Rightarrow> json_object \<Rightarrow> json_exception option \<times> ACPGroupClient" where
  "HandleIncoming_unmatched c j =
     (case json_value (j_event j) [] of
        Inl e \<Rightarrow> (Some e, c)
      | Inr event \<Rightarrow>
          if event \<noteq> [] then
            (case ParseNotify j of
               Inl e \<Rightarrow> (Some e, c)
             | Inr notify \<Rightarrow>
                 if has_handler c then (None, call_handler c [DispatchAcpNotify notify])
                 else (None, c))
          else
            (case json_value (j_action j) [] of
               Inl e \<Rightarrow> (Some e, c)
             | Inr action \<Rightarrow>
                 (case j_data j of
                    None \<Rightarrow> (None, c)
                  | Some (dump, shape) \<Rightarrow>
                      if action = ''message_push'' then (None, message_push c j dump shape)
                      else if action = ''message_batch_push''
                      then (None, message_batch_push c j shape)
                      else (None, c))))"

definition HandleIncoming ::
  "ACPGroupClient \<Rightarrow> group_payload \<Rightarrow> json_exception option \<times> ACPGroupClient" where
  "HandleIncoming c p =
     (case p of
        Malformed \<Rightarrow> (None, c)
      | NotAnObject \<Rightarrow> (Some type_error, c)
      | JsonObject j \<Rightarrow>
          (case json_value (j_request_id j) [] of
             Inl e \<Rightarrow> (Some e, c)
           | Inr request_id \<Rightarrow>
               if request_id \<noteq> [] then
                 (case ParseResponse j of
                    Inl e \<Rightarrow> (Some e, c)
                  | Inr resp \<Rightarrow>
                      (case map_of (pending_reqs c) request_id of
                         Some it \<Rightarrow>
                           (let c = c\<lparr>objects := (objects c)
                                       (it := (objects c it)\<lparr>pr_response := resp,
                                                             pr_ready := True\<rparr>)\<rparr>
                            in case json_value (j_event j) [] of
                                 Inl e \<Rightarrow> (Some e, c)
                               | Inr event \<Rightarrow>
                                   if event \<noteq> [] \<and> has_handler c then
                                     (case ParseNotify j of
                                        Inl e \<Rightarrow> (Some e, c)
                                      | Inr notify \<Rightarrow>
                                          (None, call_handler c [DispatchAcpNotify notify]))
                                   else (None, c))
                       | None \<Rightarrow> HandleIncoming_unmatched c j))
               else HandleIncoming_unmatched c j))"

fun cancel_all :: "(string \<times> ref) list \<Rightarrow> (ref \<Rightarrow> PendingRequest) \<Rightarrow> (ref \<Rightarrow> PendingRequest)" where
  "cancel_all [] objs = objs"
| "cancel_all ((req_id, pending) # reqs) objs =
     cancel_all reqs (objs(pending := (objs pending)\<lparr>pr_cancelled := True\<rparr>))"

definition Close_client :: "ACPGroupClient \<Rightarrow> ACPGroupClient" where
  "Close_client c =
     (if closed c then c
      else
        (let c = c\<lparr>closed := True\<rparr>;
             c = c\<lparr>objects := cancel_all (pending_reqs c) (objects c), pending_reqs := []\<rparr>
         in if has_cursor_store c then c\<lparr>store_close_calls := store_close_calls c + 1\<rparr> else c))"

datatype concurrent_step = Incoming group_payload | CloseCalled

fun concurrent :: "concurrent_step \<Rightarrow> ACPGroupClient \<Rightarrow> ACPGroupClient" where
  "concurrent (Incoming p) c = snd (HandleIncoming c p)"
| "concurrent CloseCalled c = Close_client c"

definition SendRequest ::
  "ACPGroupClient \<Rightarrow> string \<Rightarrow> string \<Rightarrow> string \<Rightarrow> string \<Rightarrow> int \<Rightarrow> int \<Rightarrow> send_outcome
     \<Rightarrow> concurrent_step list \<Rightarrow> (request_error + GroupResponse) \<times> ACPGroupClient" where
  "SendRequest c target gid action params_json timeout_ms now sent during =
     (case SendRequest_begin c target gid action params_json timeout_ms now sent of
        (Threw e, c) \<Rightarrow> (Inl e, c)
      | (Waiting req_id pending effective_timeout, c) \<Rightarrow>
          SendRequest_wake (fold concurrent during c) gid action req_id pending)"

definition gc0 :: ACPGroupClient where
  "gc0 = \<lparr>gc_agent_id = ''alice'', closed = False, seq_id = 0, req_timeout_ms = 30000,
           pending_reqs = [], objects = (\<lambda>_. PendingRequest_default), next_ref = 0,
           has_handler = True, handler_calls = [], has_cursor_store = True,
           store_close_calls = 0, send_func_calls = []\<rparr>"

definition reply_payload :: "string \<Rightarrow> string \<Rightarrow> group_payload" where
  "reply_payload rid d =
     JsonObject \<lparr>j_action = Present ''get_cursor'', j_request_id = Present rid,
       j_code = Present 0, j_group_id = Present ''g1'', j_error = Absent, j_event = Absent,
       j_timestamp = Absent, j_data = Some (d, DataNotObject)\<rparr>"














definition gc_waiting :: ACPGroupClient where
  "gc_waiting = snd (SendRequest_begin gc0 ''group.aid.net'' ''g1'' ''get_cursor'' [] 0 7 SendReturns)"



subsection \<open>Binary framing (protocol/binary\_protocol.cpp)\<close>

text \<open>
  The 28-byte header and the two encoder/decoder pairs. The source has two builds,
  chosen by \<^verbatim>\<open>AGENTCP_USE_ZLIB\<close>: with zlib, \<^verbatim>\<open>ComputeCRC32\<close>, \<^verbatim>\<open>ZlibCompress\<close> and
  \<^verbatim>\<open>ZlibDecompress\<close> call the library; without it, \<^verbatim>\<open>ComputeCRC32\<close> is the table-driven
  loop given in the source and the other two return an empty vector. The encoders and
  decoders therefore take the checksum function and the (de)compressor as arguments
  (\<open>crc\<close>, \<open>deflate\<close>, \<open>inflate\<close>) and \<open>use_zlib\<close> for the preprocessor branch of
  \<^verbatim>\<open>EncodeWssBinaryMessage\<close>; \<open>ComputeCRC32\<close>, \<open>ZlibCompress_unavailable\<close> and
  \<open>ZlibDecompress_unavailable\<close> are the functions of the build without zlib, with the
  table copied from the source.

  \<^verbatim>\<open>DecodeWssBinaryMessage\<close> returns the empty string on failure,
  \<^verbatim>\<open>DecodeWssBinaryBuffer\<close> returns \<^verbatim>\<open>false\<close> (\<open>None\<close>) or fills the frame.
  \<open>payload_length\<close> is the \<^verbatim>\<open>uint32_t\<close> cast of the payload size; the decoder compares
  the size it sees with the unsigned value of the field.
  \<open>be32\<close> and \<open>be16\<close> name the values \<^verbatim>\<open>ReadBE32\<close> and \<^verbatim>\<open>ReadBE16\<close> assemble,
  \<open>encoded\<close> the frame both encoders build (header with magic, CRC and length filled
  in, then the payload) and \<open>decode_fails\<close> the failure of both decoders.
\<close>

type_synonym u32 = "32 word"

definition WriteBE32 :: "bytes \<Rightarrow> u32 \<Rightarrow> bytes" where
  "WriteBE32 buf v =
     buf @ [ucast (drop_bit 24 v AND 0xFF), ucast (drop_bit 16 v AND 0xFF),
            ucast (drop_bit 8 v AND 0xFF), ucast (v AND 0xFF)]"

definition ReadBE32 :: "bytes \<Rightarrow> u32" where
  "ReadBE32 p =
     push_bit 24 (ucast (p ! 0)) OR push_bit 16 (ucast (p ! 1))
       OR push_bit 8 (ucast (p ! 2)) OR ucast (p ! 3)"

definition crc32_table :: "u32 list" where
  "crc32_table =
     [0x00000000, 0x77073096, 0xEE0E612C, 0x990951BA, 0x076DC419, 0x706AF48F, 0xE963A535, 0x9E6495A3,
      0x0EDB8832, 0x79DCB8A4, 0xE0D5E91B, 0x97D2D988, 0x09B64C2B, 0x7EB17CBE, 0xE7B82D09, 0x90BF1D9F,
      0x1DB71064, 0x6AB020F2, 0xF3B97148, 0x84BE41DE, 0x1ADAD47D, 0x6DDDE4EB, 0xF4D4B551, 0x83D385C7,
      0x136C9856, 0x646BA8C0, 0xFD62F97A, 0x8A65C9EC, 0x14015C4F, 0x63066CD9, 0xFA0F3D63, 0x8D080DF5,
      0x3B6E20C8, 0x4C69105E, 0xD56041E4, 0xA2677172, 0x3C03E4D1, 0x4B04D447, 0xD20D85FD, 0xA50AB56B,
      0x35B5A8FA, 0x42B2986C, 0xDBBBC9D6, 0xACBCF940, 0x32D86CE3, 0x45DF5C75, 0xDCD60DCF, 0xABD13D59,
      0x26D930AC, 0x51DE003A, 0xC8D75180, 0xBFD06116, 0x21B4F0B5, 0x56B3C423, 0xCFBA9599, 0xB8BDA50F,
      0x2802B89E, 0x5F058808, 0xC60CD9B2, 0xB10BE924, 0x2F6F7C87, 0x58684C11, 0xC1611DAB, 0xB6662D3D,
      0x76DC4190, 0x01DB7106, 0x98D220BC, 0xEFD5102A, 0x71B18589, 0x06B6B51F, 0x9FBFE4A5, 0xE8B8D433,
      0x7807C9A2, 0x0F00F934, 0x9609A88E, 0xE10E9818, 0x7F6A0DBB, 0x086D3D2D, 0x91646C97, 0xE6635C01,
      0x6B6B51F4, 0x1C6C6162, 0x856530D8, 0xF262004E, 0x6C0695ED, 0x1B01A57B, 0x8208F4C1, 0xF50FC457,
      0x65B0D9C6, 0x12B7E950, 0x8BBEB8EA, 0xFCB9887C, 0x62DD1DDF, 0x15DA2D49, 0x8CD37CF3, 0xFBD44C65,
      0x4DB26158, 0x3AB551CE, 0xA3BC0074, 0xD4BB30E2, 0x4ADFA541, 0x3DD895D7, 0xA4D1C46D, 0xD3D6F4FB,
      0x4369E96A, 0x346ED9FC, 0xAD678846, 0xDA60B8D0, 0x44042D73, 0x33031DE5, 0xAA0A4C5F, 0xDD0D7822,
      0x5005713C, 0x270241AA, 0xBE0B1010, 0xC90C2086, 0x5768B525, 0x206F85B3, 0xB966D409, 0xCE61E49F,
      0x5EDEF90E, 0x29D9C998, 0xB0D09822, 0xC7D7A8B4, 0x59B33D17, 0x2EB40D81, 0xB7BD5C3B, 0xC0BA6CAD,
      0xEDB88320, 0x9ABFB3B6, 0x03B6E20C, 0x74B1D29A, 0xEAD54739, 0x9DD277AF, 0x04DB2615, 0x73DC1683,
      0xE3630B12, 0x94643B84, 0x0D6D6A3E, 0x7A6A5ACE, 0xEE0E363F, 0x990F0609, 0x00060C0F, 0x7701049D,
      0xE0010177, 0x97063114, 0x0E0F6008, 0x710F5050, 0xE7097BA7, 0x90064B31, 0x09077B8B, 0x7E006C1D,
      0xED6669C0, 0x9A616A56, 0x036A1BEC, 0x746D0B7A, 0xEA237A85, 0x9D202013, 0x04293F57, 0x73263EC1,
      0xE4C11DB7, 0x93C42D21, 0x0AC4759B, 0x7DC3450D, 0xE3077AEE, 0x94001478, 0x0D0945C2, 0x7A0E3554,
      0xED063D8A, 0x9A011A1C, 0x030812A6, 0x74052230, 0xEA416D93, 0x9D405D05, 0x0449D4BF, 0x734E4429,
      0xA9501698, 0xDE57260E, 0x477E77B4, 0x30794722, 0xAE3D3681, 0xD93A0617, 0x405B57AD, 0x3758673B,
      0xA7E1F0AA, 0xD0E6C03C, 0x47EFB186, 0x30E88110, 0xAE0CF4B3, 0xD90BE425, 0x400CB59F, 0x370CAE09,
      0xBA03A5FC, 0xCD04956A, 0x540DC4D0, 0x23091B46, 0xBD6D88E5, 0xCA6AB873, 0x536DE9C9, 0x2464D85F,
      0xB4D3CBCE, 0xC3D4FB58, 0x5ADDA8E2, 0x2DD2B874, 0xB3B6CCDD, 0xC4B1BC4B, 0x5DB8ACF1, 0x2ABF9C67,
      0xDBD7BE81, 0xACCDA117, 0x35C460AD, 0x42C3503B, 0xDCC37298, 0xABB2420E, 0x32B939B4, 0x45BE0922,
      0xD5B14AB3, 0xA2B67A25, 0x3BBF2B9F, 0x4CB81B09, 0xD2F8ECAA, 0xA5FF7C3C, 0x3CF68686, 0x4BF1B610,
      0xB86D70E5, 0xCF6A0073, 0x5863B1C9, 0x2F64815F, 0xB100E4FC, 0xC607D46A, 0x5F0EE5D0, 0x280E9546,
      0xB801C2D7, 0xCF06B241, 0x580FE3FB, 0x2F08D36D, 0xB10BC0CE, 0xC60C5058, 0x5F058CE2, 0x28020A74,
      0xC1CDEE0D, 0xB6CAD09B, 0x2FC39121, 0x58C4A1B7, 0xC6A0B614, 0xB1A78682, 0x28AED738, 0x5FA9E7AE,
      0xCF10FA3F, 0xB817CAA9, 0x21109B13, 0x5617AB85, 0xC87B6E26, 0xBF7C5EB0, 0x267B0F0A, 0x517C3F9C]"

definition ComputeCRC32 :: "bytes \<Rightarrow> u32" where
  "ComputeCRC32 data =
     fold (\<lambda>b crc. (crc32_table ! unat ((crc XOR ucast b) AND 0xFF)) XOR drop_bit 8 crc)
       data 0xFFFFFFFF
     XOR 0xFFFFFFFF"

definition ZlibCompress_unavailable :: "bytes \<Rightarrow> bytes" where
  "ZlibCompress_unavailable data = []"

definition ZlibDecompress_unavailable :: "bytes \<Rightarrow> bytes" where
  "ZlibDecompress_unavailable data = []"

record WssBinaryHeader =
  magic1 :: u8
  magic2 :: u8
  version :: u16
  flags :: u32
  msg_type :: u16
  msg_seq :: u32
  content_type :: u8
  compressed :: u8
  reserved :: u32
  crc32 :: u32
  payload_length :: u32

definition WssBinaryHeader_default :: WssBinaryHeader where
  "WssBinaryHeader_default =
     \<lparr>magic1 = 0x4D, magic2 = 0x55, version = 0x0101, flags = 0, msg_type = 1, msg_seq = 0,
      content_type = 1, compressed = 0, reserved = 0, crc32 = 0, payload_length = 0\<rparr>"

definition WssBinaryHeader_SIZE :: nat where
  "WssBinaryHeader_SIZE = 28"

definition SerializeHeader :: "bytes \<Rightarrow> WssBinaryHeader \<Rightarrow> bytes" where
  "SerializeHeader buf h =
     (let buf = buf @ [magic1 h];
          buf = buf @ [magic2 h];
          buf = WriteBE16 buf (version h);
          buf = WriteBE32 buf (flags h);
          buf = WriteBE16 buf (msg_type h);
          buf = WriteBE32 buf (msg_seq h);
          buf = buf @ [content_type h];
          buf = buf @ [compressed h];
          buf = WriteBE32 buf (reserved h);
          buf = WriteBE32 buf (crc32 h)
      in WriteBE32 buf (payload_length h))"

definition DeserializeHeader :: "bytes \<Rightarrow> WssBinaryHeader" where
  "DeserializeHeader data =
     \<lparr>magic1 = data ! 0, magic2 = data ! 1,
      version = ReadBE16 (drop 2 data),
      flags = ReadBE32 (drop 4 data),
      msg_type = ReadBE16 (drop 8 data),
      msg_seq = ReadBE32 (drop 10 data),
      content_type = data ! 14,
      compressed = data ! 15,
      reserved = ReadBE32 (drop 16 data),
      crc32 = ReadBE32 (drop 20 data),
      payload_length = ReadBE32 (drop 24 data)\<rparr>"

definition EncodeWssBinaryMessage ::
  "bool \<Rightarrow> (bytes \<Rightarrow> u32) \<Rightarrow> (bytes \<Rightarrow> bytes) \<Rightarrow> bytes \<Rightarrow> u32 \<Rightarrow> bytes" where
  "EncodeWssBinaryMessage use_zlib crc deflate json_data seq =
     (let header = WssBinaryHeader_default\<lparr>msg_type := 1, msg_seq := seq, content_type := 1\<rparr>;
          (header, payload, failed) =
            (if use_zlib then
               (if length json_data \<ge> 512
                then (header\<lparr>compressed := 1\<rparr>, deflate json_data, deflate json_data = [])
                else (header\<lparr>compressed := 0\<rparr>, json_data, False))
             else (header\<lparr>compressed := 0\<rparr>, json_data, False))
      in if failed then []
         else
           (let header = header\<lparr>crc32 := crc payload,
                                 payload_length := of_nat (length payload)\<rparr>
            in SerializeHeader [] header @ payload))"

definition DecodeWssBinaryMessage :: "(bytes \<Rightarrow> u32) \<Rightarrow> (bytes \<Rightarrow> bytes) \<Rightarrow> bytes \<Rightarrow> bytes" where
  "DecodeWssBinaryMessage crc inflate data =
     (if length data < WssBinaryHeader_SIZE then []
      else
        (let header = DeserializeHeader data in
         if magic1 header \<noteq> 0x4D \<or> magic2 header \<noteq> 0x55 then []
         else
           (let payload = drop WssBinaryHeader_SIZE data;
                payload_len = length data - WssBinaryHeader_SIZE
            in if payload_len \<noteq> unat (payload_length header) then []
               else if crc payload \<noteq> crc32 header then []
               else if compressed header \<noteq> 0 \<and> compressed header \<noteq> 1 then []
               else if compressed header = 1 then inflate payload
               else payload)))"

record WssBinaryFrame =
  frame_header :: WssBinaryHeader
  frame_payload :: bytes

definition EncodeWssBinaryBuffer :: "(bytes \<Rightarrow> u32) \<Rightarrow> bytes \<Rightarrow> WssBinaryHeader \<Rightarrow> bytes" where
  "EncodeWssBinaryBuffer crc payload header_in =
     (let h = header_in\<lparr>magic1 := 0x4D, magic2 := 0x55, crc32 := crc payload,
                          payload_length := of_nat (length payload)\<rparr>
      in SerializeHeader [] h @ payload)"

definition DecodeWssBinaryBuffer ::
  "(bytes \<Rightarrow> u32) \<Rightarrow> (bytes \<Rightarrow> bytes) \<Rightarrow> bytes \<Rightarrow> WssBinaryFrame option" where
  "DecodeWssBinaryBuffer crc inflate data =
     (if length data < WssBinaryHeader_SIZE then None
      else
        (let header = DeserializeHeader data in
         if magic1 header \<noteq> 0x4D \<or> magic2 header \<noteq> 0x55 then None
         else
           (let payload = drop WssBinaryHeader_SIZE data;
                payload_len = length data - WssBinaryHeader_SIZE
            in if payload_len \<noteq> unat (payload_length header) then None
               else if crc payload \<noteq> crc32 header then None
               else if compressed header = 1 then
                 (if inflate payload = [] then None
                  else Some \<lparr>frame_header = header, frame_payload = inflate payload\<rparr>)
               else Some \<lparr>frame_header = header, frame_payload = payload\<rparr>)))"

definition be32 :: "u8 \<Rightarrow> u8 \<Rightarrow> u8 \<Rightarrow> u8 \<Rightarrow> u32" where
  "be32 a b c d = push_bit 24 (ucast a) OR push_bit 16 (ucast b) OR push_bit 8 (ucast c) OR ucast d"

definition be16 :: "u8 \<Rightarrow> u8 \<Rightarrow> u16" where
  "be16 a b = push_bit 8 (ucast a) OR ucast b"

definition decode_fails :: "(bytes \<Rightarrow> u32) \<Rightarrow> (bytes \<Rightarrow> bytes) \<Rightarrow> bytes \<Rightarrow> bool" where
  "decode_fails crc inflate data \<longleftrightarrow>
     DecodeWssBinaryBuffer crc inflate data = None \<and> DecodeWssBinaryMessage crc inflate data = []"

definition encoded :: "(bytes \<Rightarrow> u32) \<Rightarrow> WssBinaryHeader \<Rightarrow> bytes \<Rightarrow> bytes" where
  "encoded crc h payload =
     SerializeHeader []
       (h\<lparr>magic1 := 0x4D, magic2 := 0x55, crc32 := crc payload,
          payload_length := of_nat (length payload)\<rparr>) @ payload"

subsection \<open>Incremental sync (group/group\_operations.cpp)\<close>

text \<open>
  \<^verbatim>\<open>GetCursor\<close>, \<^verbatim>\<open>PullMessages\<close>, \<^verbatim>\<open>AckMessages\<close>, \<^verbatim>\<open>PullEvents\<close> and \<^verbatim>\<open>AckEvents\<close>
  each send one request, run \<^verbatim>\<open>Check\<close> on the response code and read the data. The
  group AP is not part of the client: it is the argument \<open>send\<close>, a function from the
  server's state and a request to an outcome and the next state, where the outcome is
  the error \<^verbatim>\<open>SendRequest\<close> throws or the response code with the data. A request is
  given by the parameters the client puts into it: \<^verbatim>\<open>PullMessages\<close> sends
  \<^verbatim>\<open>after_msg_id\<close> only when it is positive and \<^verbatim>\<open>limit\<close> only when it is positive.
  The data of a response is given by what the accessors read from it: a cursor state, a
  page of messages, a page of events, an object with none of the members asked for
  (\<open>NoData\<close>), or data on which the accessors of the reading operation throw
  \<^verbatim>\<open>type_error\<close> (\<open>IllTypedData\<close>: a member of another type than the one asked for); the
  exception leaves the operation and \<^verbatim>\<open>SyncGroup\<close>. Members that are absent read as the
  defaults, so a page of the other kind reads as an empty page with its \<^verbatim>\<open>has_more\<close>.
  The ids are \<^verbatim>\<open>int64_t\<close> values that are only compared and copied, so they are
  integers. The cursor store is the \<^verbatim>\<open>LocalCursorStore\<close> above, or absent; the calls made
  on the \<^verbatim>\<open>SyncHandler\<close> are recorded in order and taken to return.

  The two \<^verbatim>\<open>while (true)\<close> loops may run for ever when the server keeps answering
  \<^verbatim>\<open>has_more\<close>; they take fuel, one unit for each pull, and return \<open>None\<close> when it
  runs out. \<open>raise_cursor\<close> is the part of \<^verbatim>\<open>SyncGroup\<close> that raises the server's
  cursor to the local one.

  \<open>logged send\<close> is the server \<open>send\<close> that also records every exchange, the request
  with its outcome, in order. What the claim says of a run is written down on such a
  record by \<open>spec_sync_run\<close>: the first exchange is \<^verbatim>\<open>get_cursor\<close>; then
  \<open>spec_message_phase\<close> asks for a pull of 50 after the position, for the
  acknowledgement of the last id of the page after every page that is not empty, for a
  next pull after that id (after the same position when the page was empty) as long as
  the page says \<^verbatim>\<open>has_more\<close>, and for nothing further of this phase once it does not;
  \<open>spec_event_phase\<close> asks the same of the events. Both give the pages that were not
  empty, in order, and the exchanges that remain.

  \<open>scenario_send\<close> is the server of the scenario in the claim: it holds messages and
  events, answers a pull with those after the position given (after its own
  acknowledged position when none is given), a batch of at most the limit at a time,
  and records the acknowledgements it receives. \<open>two_per_page_send\<close> is the same server
  giving at most two items a page.
\<close>

record GroupEvent =
  ge_event_id :: int
  ge_event_type :: string
  ge_actor :: string
  ge_timestamp :: int
  ge_target :: string
  ge_data_json :: string

record MsgCursor =
  start_msg_id :: int
  current_msg_id :: int
  latest_msg_id :: int
  msg_unread_count :: int

record EventCursor =
  start_event_id :: int
  current_event_id :: int
  latest_event_id :: int
  event_unread_count :: int

record CursorState =
  cs_msg_cursor :: MsgCursor
  cs_event_cursor :: EventCursor


record PullMessagesResp =
  pm_messages :: "GroupMessage list"
  pm_has_more :: bool
  pm_latest_msg_id :: int

record PullEventsResp =
  pe_events :: "GroupEvent list"
  pe_has_more :: bool
  pe_latest_event_id :: int

datatype group_request =
    get_cursor
  | pull_messages "int option" "int option"
  | ack_messages int
  | pull_events int "int option"
  | ack_events int

datatype response_data =
    NoData
  | CursorData CursorState
  | MessagesData PullMessagesResp
  | EventsData PullEventsResp
  | IllTypedData

type_synonym outcome = "request_error + int \<times> response_data"

type_synonym 'srv send = "'srv \<Rightarrow> group_request \<Rightarrow> outcome \<times> 'srv"

datatype sync_error = RequestFailed request_error | GroupError string int | DataTypeError




datatype handler_event =
    OnMessages string "GroupMessage list"
  | OnEvents string "GroupEvent list"

record 'srv sync_state =
  sync_server :: 'srv
  cursor_store :: "LocalCursorStore option"
  handler_log :: "handler_event list"

definition action_name :: "group_request \<Rightarrow> string" where
  "action_name r =
     (case r of
        get_cursor \<Rightarrow> ''get_cursor''
      | pull_messages _ _ \<Rightarrow> ''pull_messages''
      | ack_messages _ \<Rightarrow> ''ack_messages''
      | pull_events _ _ \<Rightarrow> ''pull_events''
      | ack_events _ \<Rightarrow> ''ack_events'')"

definition SendRequest_Check ::
  "'srv send \<Rightarrow> 'srv sync_state \<Rightarrow> group_request \<Rightarrow> (sync_error + response_data) \<times> 'srv sync_state" where
  "SendRequest_Check send st r =
     (case send (sync_server st) r of
        (Inl e, srv) \<Rightarrow> (Inl (RequestFailed e), st\<lparr>sync_server := srv\<rparr>)
      | (Inr (code, d), srv) \<Rightarrow>
          if code \<noteq> 0 then (Inl (GroupError (action_name r) code), st\<lparr>sync_server := srv\<rparr>)
          else (Inr d, st\<lparr>sync_server := srv\<rparr>))"




definition AckEvents ::
  "'srv send \<Rightarrow> string \<Rightarrow> 'srv sync_state \<Rightarrow> int \<Rightarrow> (sync_error + unit) \<times> 'srv sync_state" where
  "AckEvents send gid st event_id =
     (case SendRequest_Check send st (ack_events event_id) of
        (Inl e, st) \<Rightarrow> (Inl e, st)
      | (Inr d, st) \<Rightarrow>
          (Inr (), st\<lparr>cursor_store :=
                       map_option (\<lambda>store. SaveEventCursor store gid event_id) (cursor_store st)\<rparr>))"




definition raise_cursor :: "CursorState \<Rightarrow> LocalCursorStore option \<Rightarrow> string \<Rightarrow> CursorState" where
  "raise_cursor cursor store gid =
     (case store of
        None \<Rightarrow> cursor
      | Some s \<Rightarrow>
          (let (local_msg, local_event) = LoadCursor s gid;
               cursor = (if local_msg > current_msg_id (cs_msg_cursor cursor)
                         then cursor\<lparr>cs_msg_cursor := (cs_msg_cursor cursor)\<lparr>current_msg_id := local_msg\<rparr>\<rparr>
                         else cursor);
               cursor = (if local_event > current_event_id (cs_event_cursor cursor)
                         then cursor\<lparr>cs_event_cursor := (cs_event_cursor cursor)\<lparr>current_event_id := local_event\<rparr>\<rparr>
                         else cursor)
           in cursor))"





















section \<open>Properties\<close>

subsection \<open>Varint round trip\<close>

declare EncodeVarint.simps [simp del]
declare DecodeVarint_loop.simps [simp del]

lemma varint_split:
  "push_bit s ((v::u64) AND 0x7F) OR push_bit (s + 7) (drop_bit 7 v) = push_bit s v"
proof -
  have "(v AND 0x7F) OR push_bit 7 (drop_bit 7 v) = v"
  proof -
    have "(0x7F :: u64) = mask 7" by (simp add: mask_eq_exp_minus_1)
    then have "v AND 0x7F = take_bit 7 v" by (simp add: take_bit_eq_mask)
    then show ?thesis
      by (metis bits_ident or.commute disjunctive_add bit_push_bit_iff bit_take_bit_iff not_less)
  qed
  then show ?thesis
    by (metis push_bit_or push_bit_push_bit)
qed

lemma bit_7F_int: "bit (0x7F :: int) n \<longleftrightarrow> n < 7"
proof -
  have "(0x7F :: int) = mask 7" by (simp add: mask_eq_exp_minus_1)
  then show ?thesis by (simp only: bit_mask_iff) auto
qed

lemma bit_80_int: "bit (0x80 :: int) n \<longleftrightarrow> n = 7"
proof -
  have "(0x80 :: int) = 2 ^ 7" by simp
  then show ?thesis by (simp only: bit_exp_iff) auto
qed

lemmas bit_consts = bit_7F_int bit_80_int

lemma cont_byte_low: "ucast ((ucast (((v::u64) AND 0x7F) OR 0x80) :: u8) AND 0x7F) = v AND 0x7F"
  by (rule bit_word_eqI) (auto simp add: bit_simps bit_consts)

lemma cont_byte_high: "(ucast (((v::u64) AND 0x7F) OR 0x80) :: u8) AND 0x80 \<noteq> 0"
proof -
  have "bit ((ucast (((v::u64) AND 0x7F) OR 0x80) :: u8) AND 0x80) 7"
    by (simp add: bit_simps bit_consts)
  then show ?thesis by auto
qed

lemma small_take_bit: "(v::u64) < 0x80 \<Longrightarrow> take_bit 7 v = v"
proof -
  assume "v < 0x80"
  then have "v < 2 ^ 7" by simp
  then show ?thesis by (simp only: less_mask_eq take_bit_eq_mask)
qed

lemma last_byte_low: 
  assumes "(v::u64) < 0x80" shows "ucast ((ucast v :: u8) AND 0x7F) = v"
proof -
  have "ucast ((ucast (take_bit 7 v) :: u8) AND 0x7F) = take_bit 7 v"
    by (rule bit_word_eqI) (auto simp add: bit_simps bit_consts)
  then show ?thesis using small_take_bit [OF assms] by simp
qed

lemma last_byte_high:
  assumes "(v::u64) < 0x80" shows "(ucast v :: u8) AND 0x80 = 0"
proof -
  have "(ucast (take_bit 7 v) :: u8) AND 0x80 = 0"
    by (rule bit_word_eqI) (auto simp add: bit_simps bit_consts)
  then show ?thesis using small_take_bit [OF assms] by simp
qed

lemma EncodeVarint_length_le:
  "unat v < 2 ^ (7 * k) \<Longrightarrow> 0 < k \<Longrightarrow> length (EncodeVarint v) \<le> k"
proof (induction v arbitrary: k rule: EncodeVarint.induct)
  case (1 v)
  show ?case
  proof (cases "v \<ge> 0x80")
    case True
    then have "128 \<le> unat v" by (simp add: word_le_nat_alt)
    with 1(2) have "k \<noteq> 1" by auto
    with 1(3) obtain k' where k: "k = Suc k'" and "0 < k'" by (cases k) auto
    have "unat (drop_bit 7 v) = drop_bit 7 (unat v)"
      by (rule unat_drop_bit_eq)
    also have "\<dots> = unat v div 128"
      by (simp add: drop_bit_eq_div)
    also have "\<dots> < 2 ^ (7 * k')"
      using 1(2) k by (simp add: less_mult_imp_div_less power_add)
    finally have "length (EncodeVarint (drop_bit 7 v)) \<le> k'"
      using 1(1) True \<open>0 < k'\<close> by blast
    then show ?thesis using True k by (subst EncodeVarint.simps) simp
  next
    case False
    then show ?thesis using 1(3) by (subst EncodeVarint.simps) simp
  qed
qed

lemma EncodeVarint_length_le_10: "length (EncodeVarint v) \<le> 10"
proof -
  have "unat v < 2 ^ 64" using unsigned_less [of v] by simp
  then have "unat v < 2 ^ (7 * 10)" by simp
  then show ?thesis by (rule EncodeVarint_length_le) simp
qed

lemma DecodeVarint_loop_encoded:
  "i = length pre \<Longrightarrow> shift = 7 * i \<Longrightarrow> i + length (EncodeVarint v) \<le> 10 \<Longrightarrow>
   DecodeVarint_loop (pre @ EncodeVarint v) i shift acc
     = (acc OR push_bit shift v, i + length (EncodeVarint v))"
proof (induction v arbitrary: pre i shift acc rule: EncodeVarint.induct)
  case (1 v)
  show ?case
  proof (cases "v \<ge> 0x80")
    case True
    let ?b = "ucast ((v AND 0x7F) OR 0x80) :: u8"
    have enc: "EncodeVarint v = ?b # EncodeVarint (drop_bit 7 v)"
      using True by (subst EncodeVarint.simps) simp
    have nth: "(pre @ EncodeVarint v) ! i = ?b"
      using 1(2) enc by simp
    have lt: "i < length (pre @ EncodeVarint v)" "i < 10"
      using 1(2,4) enc by simp_all
    have rec: "DecodeVarint_loop ((pre @ [?b]) @ EncodeVarint (drop_bit 7 v)) (i + 1) (shift + 7)
                 (acc OR push_bit shift (v AND 0x7F))
             = ((acc OR push_bit shift (v AND 0x7F)) OR push_bit (shift + 7) (drop_bit 7 v),
                (i + 1) + length (EncodeVarint (drop_bit 7 v)))"
      using 1(2,3,4) enc by (intro 1(1) True) simp_all
    have "DecodeVarint_loop (pre @ EncodeVarint v) i shift acc
        = DecodeVarint_loop (pre @ EncodeVarint v) (i + 1) (shift + 7)
            (acc OR push_bit shift (v AND 0x7F))"
      using lt nth cont_byte_high [of v] cont_byte_low [of v]
      by (subst DecodeVarint_loop.simps) (simp add: Let_def)
    also have "\<dots> = ((acc OR push_bit shift (v AND 0x7F)) OR push_bit (shift + 7) (drop_bit 7 v),
                (i + 1) + length (EncodeVarint (drop_bit 7 v)))"
      using rec enc by simp
    also have "\<dots> = (acc OR push_bit shift v, i + length (EncodeVarint v))"
      using varint_split [of shift v] by (simp only: or.assoc enc) simp
    finally show ?thesis .
  next
    case False
    then have small: "v < 0x80" by simp
    have enc: "EncodeVarint v = [ucast v]"
      using False by (subst EncodeVarint.simps) simp
    show ?thesis
      using 1(2,4) small last_byte_low [OF small] last_byte_high [OF small]
      by (subst DecodeVarint_loop.simps) (simp add: enc Let_def)
  qed
qed


text \<open>
  Claim C9. For every 64-bit unsigned value \<open>v\<close>, decoding the bytes that
  \<^verbatim>\<open>EncodeVarint\<close> produces for \<open>v\<close> gives back \<open>v\<close>, and the reported
  \<^verbatim>\<open>bytes_read\<close> is the length of the encoding.
\<close>

theorem DecodeVarint_EncodeVarint:
  "DecodeVarint (EncodeVarint v) = (v, length (EncodeVarint v))"
  using DecodeVarint_loop_encoded [of 0 "[]" 0 v 0] EncodeVarint_length_le_10 [of v]
  by (simp add: DecodeVarint_def)

subsection \<open>Cursor store: monotone saves and persistence\<close>

lemma LoadCursor_SaveMsgCursor:
  "LoadCursor (SaveMsgCursor s g v) g' =
     (if g' = g then (max (fst (LoadCursor s g)) v, snd (LoadCursor s g)) else LoadCursor s g')"
  by (auto simp: LoadCursor_def SaveMsgCursor_def entry_at_def default_entry_def Let_def
           split: option.splits)

lemma LoadCursor_SaveEventCursor:
  "LoadCursor (SaveEventCursor s g v) g' =
     (if g' = g then (fst (LoadCursor s g), max (snd (LoadCursor s g)) v) else LoadCursor s g')"
  by (auto simp: LoadCursor_def SaveEventCursor_def entry_at_def default_entry_def Let_def
           split: option.splits)

lemma LoadCursor_SaveMsgCursors:
  "fst (LoadCursor (SaveMsgCursors s g vs) g) = fold max vs (fst (LoadCursor s g))"
  unfolding SaveMsgCursors_def
  by (induction vs arbitrary: s) (simp_all add: LoadCursor_SaveMsgCursor max.commute)

lemma LoadCursor_SaveEventCursors:
  "snd (LoadCursor (SaveEventCursors s g vs) g) = fold max vs (snd (LoadCursor s g))"
  unfolding SaveEventCursors_def
  by (induction vs arbitrary: s) (simp_all add: LoadCursor_SaveEventCursor max.commute)

lemma fold_max_Max: "fold max vs (a::int) = Max (insert a (set vs))"
  using Max.set_eq_fold [of a vs] by simp

lemma file_path_SaveMsgCursor [simp]: "file_path (SaveMsgCursor s g v) = file_path s"
  by (simp add: SaveMsgCursor_def Let_def)

lemma file_path_SaveEventCursor [simp]: "file_path (SaveEventCursor s g v) = file_path s"
  by (simp add: SaveEventCursor_def Let_def)

lemma file_path_RemoveCursor [simp]: "file_path (RemoveCursor s g) = file_path s"
  by (simp add: RemoveCursor_def split: option.splits)

lemma file_path_new [simp]: "file_path (LocalCursorStore_new fs p) = p"
  by (simp add: LocalCursorStore_new_def Load_def Let_def split: option.splits file_content.splits)

lemma dirty_new [simp]: "\<not> dirty (LocalCursorStore_new fs p)"
  by (simp add: LocalCursorStore_new_def Load_def Let_def split: option.splits file_content.splits)

lemma dirty_SaveMsgCursor:
  "dirty (SaveMsgCursor s g v) \<longleftrightarrow> dirty s \<or> v > fst (LoadCursor s g)"
  by (auto simp: LoadCursor_def SaveMsgCursor_def entry_at_def default_entry_def Let_def
           split: option.splits)

lemma dirty_SaveEventCursor:
  "dirty (SaveEventCursor s g v) \<longleftrightarrow> dirty s \<or> v > snd (LoadCursor s g)"
  by (auto simp: LoadCursor_def SaveEventCursor_def entry_at_def default_entry_def Let_def
           split: option.splits)

lemma store_inv_new: "p \<noteq> [] \<Longrightarrow> store_inv (fs, LocalCursorStore_new fs p)"
  by (simp add: store_inv_def file_agrees_def)

lemma store_inv_SaveMsg:
  assumes "store_inv (fs, s)" shows "store_inv (fs, SaveMsgCursor s g v)"
proof (cases "dirty (SaveMsgCursor s g v)")
  case True
  then show ?thesis using assms by (simp add: store_inv_def)
next
  case False
  then have nd: "\<not> dirty s" and le: "v \<le> fst (LoadCursor s g)"
    by (auto simp: dirty_SaveMsgCursor)
  have "LoadCursor (SaveMsgCursor s g v) g' = LoadCursor s g'" for g'
    using le by (simp add: LoadCursor_SaveMsgCursor max_def)
  then show ?thesis using assms nd by (simp add: store_inv_def file_agrees_def)
qed

lemma store_inv_SaveEvent:
  assumes "store_inv (fs, s)" shows "store_inv (fs, SaveEventCursor s g v)"
proof (cases "dirty (SaveEventCursor s g v)")
  case True
  then show ?thesis using assms by (simp add: store_inv_def)
next
  case False
  then have nd: "\<not> dirty s" and le: "v \<le> snd (LoadCursor s g)"
    by (auto simp: dirty_SaveEventCursor)
  have "LoadCursor (SaveEventCursor s g v) g' = LoadCursor s g'" for g'
    using le by (simp add: LoadCursor_SaveEventCursor max_def)
  then show ?thesis using assms nd by (simp add: store_inv_def file_agrees_def)
qed

lemma store_inv_Remove:
  assumes "store_inv (fs, s)" shows "store_inv (fs, RemoveCursor s g)"
  using assms by (auto simp: store_inv_def RemoveCursor_def file_agrees_def split: option.splits)

lemma reopen_after_Write:
  assumes "file_path s \<noteq> []"
  shows "LoadCursor (LocalCursorStore_new (fs(file_path s \<mapsto> CursorJson (cursors s))) (file_path s)) g
           = LoadCursor s g"
  using assms
  by (simp add: LocalCursorStore_new_def Load_def LoadCursor_def Let_def split: option.splits)

lemma LoadCursor_dirty_update [simp]: "LoadCursor (s\<lparr>dirty := b\<rparr>) g = LoadCursor s g"
  by (simp add: LoadCursor_def)

lemma store_inv_Flush:
  assumes "store_inv (fs, s)" shows "store_inv (Flush is_open (fs, s))"
  using assms
  by (auto simp: store_inv_def Flush_def Write_def file_agrees_def reopen_after_Write)

lemma store_inv_step: "store_inv st \<Longrightarrow> store_inv (apply_store_op op st)"
  by (cases st; cases op)
     (simp_all add: store_inv_SaveMsg store_inv_SaveEvent store_inv_Remove store_inv_Flush)

lemma file_path_step: "file_path (snd (apply_store_op op st)) = file_path (snd st)"
  by (cases st; cases op) (auto simp: Flush_def Write_def)

lemma file_path_fold: "file_path (snd (fold apply_store_op ops st)) = file_path (snd st)"
  by (induction ops arbitrary: st) (simp_all add: file_path_step)

lemma store_inv_fold: "store_inv st \<Longrightarrow> store_inv (fold apply_store_op ops st)"
  by (induction ops arbitrary: st) (simp_all add: store_inv_step)

lemma Close_reopen:
  assumes "store_inv (fs, s)" and "Close True (fs, s) = (fs', s')"
  shows "LoadCursor (LocalCursorStore_new fs' (file_path s')) g = LoadCursor s' g"
  using assms
  by (auto simp: store_inv_def Close_def Flush_def Write_def file_agrees_def reopen_after_Write
           split: if_splits)


text \<open>
  Claim C6 (as amended). A save never lowers the stored cursor: after
  \<^verbatim>\<open>SaveMsgCursor(gid, v)\<close> the stored message cursor is the maximum of the value stored
  before and \<open>v\<close>, so a smaller incoming value is ignored; after a sequence of saves
  \<open>v\<^sub>1 \<dots> v\<^sub>n\<close> it is the maximum of the value stored before the sequence (0 for a
  group the store has not seen) and \<open>v\<^sub>1 \<dots> v\<^sub>n\<close>. The same holds for
  \<^verbatim>\<open>SaveEventCursor\<close>. For a store opened on a non-empty file path, after any sequence
  of saves, removals and flushes followed by a \<^verbatim>\<open>Close\<close> whose write succeeds, a store
  reopened on the same path reports, for every group, what the closed store reports.
\<close>

theorem cursor_store_monotone_persistent:
  "fst (LoadCursor (SaveMsgCursor s g v) g) = max (fst (LoadCursor s g)) v
   \<and> snd (LoadCursor (SaveEventCursor s g v) g) = max (snd (LoadCursor s g)) v
   \<and> fst (LoadCursor (SaveMsgCursors s g vs) g) = Max (insert (fst (LoadCursor s g)) (set vs))
   \<and> snd (LoadCursor (SaveEventCursors s g vs) g) = Max (insert (snd (LoadCursor s g)) (set vs))
   \<and> (p \<noteq> [] \<longrightarrow>
        (case Close True (fold apply_store_op ops (fs, LocalCursorStore_new fs p)) of
           (fs', s') \<Rightarrow> LoadCursor (LocalCursorStore_new fs' p) g = LoadCursor s' g))"
proof (intro conjI impI)
  show "fst (LoadCursor (SaveMsgCursor s g v) g) = max (fst (LoadCursor s g)) v"
    by (simp add: LoadCursor_SaveMsgCursor)
  show "snd (LoadCursor (SaveEventCursor s g v) g) = max (snd (LoadCursor s g)) v"
    by (simp add: LoadCursor_SaveEventCursor)
  show "fst (LoadCursor (SaveMsgCursors s g vs) g) = Max (insert (fst (LoadCursor s g)) (set vs))"
    by (simp only: LoadCursor_SaveMsgCursors fold_max_Max)
  show "snd (LoadCursor (SaveEventCursors s g vs) g) = Max (insert (snd (LoadCursor s g)) (set vs))"
    by (simp only: LoadCursor_SaveEventCursors fold_max_Max)
  assume p: "p \<noteq> []"
  obtain fs1 s1 where st: "fold apply_store_op ops (fs, LocalCursorStore_new fs p) = (fs1, s1)"
    by (cases "fold apply_store_op ops (fs, LocalCursorStore_new fs p)")
  obtain fs' s' where c: "Close True (fs1, s1) = (fs', s')"
    by (cases "Close True (fs1, s1)")
  have inv: "store_inv (fs1, s1)"
    using store_inv_fold [OF store_inv_new [OF p], of ops fs] st by simp
  have "file_path s' = file_path s1"
    using c by (auto simp: Close_def Flush_def Write_def split: if_splits)
  moreover have "file_path s1 = p"
    using file_path_fold [of ops "(fs, LocalCursorStore_new fs p)"] st by simp
  ultimately have "LoadCursor (LocalCursorStore_new fs' p) g = LoadCursor s' g"
    using Close_reopen [OF inv c, of g] by simp
  then show "case Close True (fold apply_store_op ops (fs, LocalCursorStore_new fs p)) of
           (fs', s') \<Rightarrow> LoadCursor (LocalCursorStore_new fs' p) g = LoadCursor s' g"
    using st c by simp
qed

theorem cursor_store_monotone_persistent_witness:
  "''cursors.json'' \<noteq> []
   \<and> fst (LoadCursor (SaveMsgCursors (LocalCursorStore_new Map.empty ''cursors.json'') ''g1'' [3, 7, 5]) ''g1'') = 7
   \<and> (case Close True (fold apply_store_op [SaveMsg ''g1'' 3, SaveMsg ''g1'' 7, SaveMsg ''g1'' 5]
              (Map.empty, LocalCursorStore_new Map.empty ''cursors.json'')) of
         (fs', s') \<Rightarrow> LoadCursor (LocalCursorStore_new fs' ''cursors.json'') ''g1'' = (7, 0))"
  using cursor_store_monotone_persistent
          [of "LocalCursorStore_new Map.empty ''cursors.json''" "''g1''" 0 "[3, 7, 5]" "''cursors.json''"
              "[SaveMsg ''g1'' 3, SaveMsg ''g1'' 7, SaveMsg ''g1'' 5]" Map.empty]
  by (simp add: LocalCursorStore_new_def Load_def LoadCursor_def SaveMsgCursor_def
        entry_at_def default_entry_def Close_def Flush_def Write_def Let_def)

text \<open>
  The claim as first stated says the final value is \<open>max(v\<^sub>1 \<dots> v\<^sub>n)\<close>. A store
  reopened on a file that holds cursor 10 keeps 10 after \<^verbatim>\<open>SaveMsgCursor(gid, 3)\<close>, and a
  fresh store keeps the default 0 after a save of a negative value.
\<close>

theorem cursor_store_final_max_counterexample:
  "fst (LoadCursor (SaveMsgCursors
          (LocalCursorStore_new
             [''cursors.json'' \<mapsto> CursorJson [''g1'' \<mapsto> \<lparr>msg_cursor = 10, event_cursor = 0\<rparr>]]
             ''cursors.json'') ''g1'' [3]) ''g1'') \<noteq> Max (set [3])
   \<and> fst (LoadCursor (SaveMsgCursors (LocalCursorStore_new Map.empty []) ''g1'' [-5]) ''g1'')
       \<noteq> Max (set [-5])"
  by (simp add: SaveMsgCursors_def LocalCursorStore_new_def Load_def LoadCursor_def
        SaveMsgCursor_def entry_at_def default_entry_def Let_def)

subsection \<open>Group URL parsing\<close>

declare strip_trailing_slashes.simps [simp del]

lemma find_str_sep:
  "CHR '':'' \<notin> set scheme \<Longrightarrow> find_str (scheme @ ''://'' @ rest) ''://'' = Some (length scheme)"
  by (induction scheme) auto

lemma find_str_None_no_colon:
  "CHR '':'' \<notin> set s \<Longrightarrow> find_str s ''://'' = None"
  by (induction s) (auto simp: take_Cons')

lemma find_char_notin: "c \<notin> set xs \<Longrightarrow> find_char xs c = None"
  by (induction xs) auto

lemma find_char_append_None:
  "c \<notin> set xs \<Longrightarrow> find_char ys c = None \<Longrightarrow> find_char (xs @ ys) c = None"
  by (induction xs) auto

lemma find_char_append_Some:
  "c \<notin> set xs \<Longrightarrow> find_char ys c = Some n \<Longrightarrow> find_char (xs @ ys) c = Some (length xs + n)"
  by (induction xs) auto

lemma find_char_here: "c \<notin> set xs \<Longrightarrow> find_char (xs @ c # ys) c = Some (length xs)"
  using find_char_append_Some [of c xs "c # ys" 0] by simp

lemma find_char_Some_less:
  "find_char xs c = Some q \<Longrightarrow> q < length xs"
  by (induction xs arbitrary: q) (auto split: if_splits)

lemma strip_trailing_slashes_snoc:
  "strip_trailing_slashes (xs @ [CHR ''/'']) = strip_trailing_slashes xs"
  by (subst strip_trailing_slashes.simps) simp

lemma strip_trailing_slashes_replicate:
  "seg = [] \<or> last seg \<noteq> CHR ''/'' \<Longrightarrow>
   strip_trailing_slashes (seg @ replicate n CHR ''/'') = seg"
proof (induction n)
  case 0
  then show ?case by (subst strip_trailing_slashes.simps) auto
next
  case (Suc n)
  have "seg @ replicate (Suc n) CHR ''/'' = (seg @ replicate n CHR ''/'') @ [CHR ''/'']"
    by (simp add: replicate_append_same)
  then have "strip_trailing_slashes (seg @ replicate (Suc n) CHR ''/'')
           = strip_trailing_slashes (seg @ replicate n CHR ''/'')"
    by (simp only: strip_trailing_slashes_snoc)
  then show ?case using Suc by simp
qed

lemma cut_query_fragment_path:
  assumes q: "CHR ''?'' \<notin> set p" and f: "CHR ''#'' \<notin> set p"
    and t: "tail = [] \<or> hd tail = CHR ''?'' \<or> hd tail = CHR ''#''"
  shows "cut_query_fragment (p @ tail) = p"
proof (cases tail)
  case Nil
  then show ?thesis using q f by (simp add: cut_query_fragment_def find_char_notin)
next
  case (Cons c tl)
  with t consider "c = CHR ''?''" | "c = CHR ''#''" by auto
  then show ?thesis
  proof cases
    case 1
    then show ?thesis using q f Cons
      by (simp add: cut_query_fragment_def find_char_here find_char_notin)
  next
    case 2
    show ?thesis
    proof (cases "find_char tail CHR ''?''")
      case None
      then have "find_char (p @ tail) CHR ''?'' = None"
        using q by (simp add: find_char_append_None)
      then show ?thesis using f 2 Cons
        by (simp add: cut_query_fragment_def find_char_here)
    next
      case (Some n)
      then have pos: "find_char (p @ tail) CHR ''?'' = Some (length p + n)"
        using q by (simp add: find_char_append_Some)
      have "n \<noteq> 0" using Some 2 Cons by (auto split: if_splits)
      then obtain m where n: "n = Suc m" by (cases n) auto
      have "take (length p + n) (p @ tail) = p @ CHR ''#'' # take m tl"
        using n 2 Cons by simp
      then show ?thesis using pos f
        by (simp add: cut_query_fragment_def find_char_here)
    qed
  qed
qed

lemma ParseGroupUrl_no_slash:
  assumes "CHR '':'' \<notin> set scheme" and "find_char rest CHR ''/'' = None"
  shows "ParseGroupUrl (scheme @ ''://'' @ rest) = Inl NoPath"
  using find_str_sep [OF assms(1), of rest] assms(2)
  by (simp add: ParseGroupUrl_def)

lemma ParseGroupUrl_empty_host:
  assumes "CHR '':'' \<notin> set scheme"
  shows "ParseGroupUrl (scheme @ ''://'' @ CHR ''/'' # rest) = Inl NoPath"
  using find_str_sep [OF assms, of "CHR ''/'' # rest"]
  by (simp add: ParseGroupUrl_def)

lemma ParseGroupUrl_parts:
  assumes "CHR '':'' \<notin> set scheme"
    and "find_char rest CHR ''/'' = Some k" and "k \<noteq> 0"
    and "take k rest = host"
    and "strip_trailing_slashes (cut_query_fragment (drop (k + 1) rest)) = path"
  shows "ParseGroupUrl (scheme @ ''://'' @ rest) =
     (if host = [] \<or> path = [] then Inl MissingTargetOrGroup
      else Inr \<lparr>target_aid = host, group_id = path\<rparr>)"
  using find_str_sep [OF assms(1), of rest] assms(2-)
  by (simp add: ParseGroupUrl_def cut_query_fragment_def Let_def)

lemma ParseGroupUrl_shape:
  assumes s: "CHR '':'' \<notin> set scheme"
    and h: "host \<noteq> []" "CHR ''/'' \<notin> set host"
    and p: "path = [] \<or> last path \<noteq> CHR ''/''" "CHR ''?'' \<notin> set path" "CHR ''#'' \<notin> set path"
    and t: "tail = [] \<or> hd tail = CHR ''?'' \<or> hd tail = CHR ''#''"
  shows "ParseGroupUrl (scheme @ ''://'' @ host @ ''/'' @ path @ replicate n CHR ''/'' @ tail) =
     (if path = [] then Inl MissingTargetOrGroup
      else Inr \<lparr>target_aid = host, group_id = path\<rparr>)"
proof -
  let ?rest = "host @ ''/'' @ path @ replicate n CHR ''/'' @ tail"
  have pos: "find_char ?rest CHR ''/'' = Some (length host)"
    using h(2) find_char_here [of "CHR ''/''" host] by simp
  have "CHR ''?'' \<notin> set (path @ replicate n CHR ''/'')" "CHR ''#'' \<notin> set (path @ replicate n CHR ''/'')"
    using p by auto
  then have "cut_query_fragment ((path @ replicate n CHR ''/'') @ tail) = path @ replicate n CHR ''/''"
    using t by (rule cut_query_fragment_path)
  then have cut: "cut_query_fragment (drop (length host + 1) ?rest) = path @ replicate n CHR ''/''"
    by simp
  have strip: "strip_trailing_slashes (path @ replicate n CHR ''/'') = path"
    using p(1) by (rule strip_trailing_slashes_replicate)
  have "ParseGroupUrl (scheme @ ''://'' @ ?rest) =
     (if host = [] \<or> path = [] then Inl MissingTargetOrGroup
      else Inr \<lparr>target_aid = host, group_id = path\<rparr>)"
  proof (rule ParseGroupUrl_parts [OF s pos])
    show "length host \<noteq> 0" using h(1) by simp
    show "take (length host) ?rest = host" by simp
    show "strip_trailing_slashes (cut_query_fragment (drop (length host + 1) ?rest)) = path"
      by (simp only: cut strip)
  qed
  then show ?thesis using h(1) by simp
qed


lemma find_str_None: "find_str url ''://'' = None \<Longrightarrow> ParseGroupUrl url = Inl NoScheme"
  by (simp add: ParseGroupUrl_def)

lemma takeWhile_segment:
  assumes "\<forall>c \<in> set p. P c" and "r = [] \<or> \<not> P (hd r)"
  shows "takeWhile P (p @ r) = p"
  using assms by (cases r) (auto simp: takeWhile_append2 takeWhile_tail)

lemma dropWhile_host:
  "CHR ''/'' \<notin> set host \<Longrightarrow>
   dropWhile (\<lambda>c. c \<noteq> CHR ''/'') (host @ CHR ''/'' # r) = CHR ''/'' # r"
  by (induction host) auto

lemma spec_first_path_segment_shape:
  assumes s: "CHR '':'' \<notin> set scheme"
    and h: "CHR ''/'' \<notin> set host"
    and p: "CHR ''/'' \<notin> set path" "CHR ''?'' \<notin> set path" "CHR ''#'' \<notin> set path"
    and t: "tail = [] \<or> hd tail = CHR ''?'' \<or> hd tail = CHR ''#''"
  shows "spec_first_path_segment
           (scheme @ ''://'' @ host @ ''/'' @ path @ replicate n CHR ''/'' @ tail) = path"
proof -
  let ?P = "\<lambda>c. c \<notin> {CHR ''/'', CHR ''?'', CHR ''#''}"
  let ?r = "replicate n CHR ''/'' @ tail"
  have r: "?r = [] \<or> \<not> ?P (hd ?r)"
    using t by (cases n) (auto simp: hd_append)
  have "\<forall>c \<in> set path. ?P c" using p by auto
  then have tw: "takeWhile ?P (path @ ?r) = path"
    using r by (rule takeWhile_segment)
  have "spec_first_path_segment (scheme @ ''://'' @ host @ ''/'' @ path @ ?r)
      = takeWhile ?P (drop 1 (dropWhile (\<lambda>c. c \<noteq> CHR ''/'') (host @ CHR ''/'' # path @ ?r)))"
    using find_str_sep [OF s, of "host @ ''/'' @ path @ ?r"]
    by (simp add: spec_first_path_segment_def)
  also have "\<dots> = takeWhile ?P (path @ ?r)"
    by (simp only: dropWhile_host [OF h]) simp
  finally show ?thesis using tw by simp
qed


text \<open>
  Claim C4 (as amended). \<^verbatim>\<open>ParseGroupUrl\<close> raises an error when the URL holds no
  \<open>://\<close>, when no slash follows the host, when the host is empty, and when the path is
  empty or made of slashes only. Otherwise, for a URL
  \<open>scheme://host/path\<close> followed by any number of slashes and an optional query or
  fragment, it returns the host as \<^verbatim>\<open>target_aid\<close> and the whole path, inner slashes
  included, as \<^verbatim>\<open>group_id\<close>. When the path has one segment, that is the first path
  segment of the URL.
\<close>

theorem ParseGroupUrl_result:
  "(find_str url ''://'' = None \<longrightarrow> ParseGroupUrl url = Inl NoScheme)
   \<and> (CHR '':'' \<notin> set scheme \<and> find_char rest CHR ''/'' = None \<longrightarrow>
        ParseGroupUrl (scheme @ ''://'' @ rest) = Inl NoPath)
   \<and> (CHR '':'' \<notin> set scheme \<longrightarrow>
        ParseGroupUrl (scheme @ ''://'' @ CHR ''/'' # rest) = Inl NoPath)
   \<and> (CHR '':'' \<notin> set scheme \<and> host \<noteq> [] \<and> CHR ''/'' \<notin> set host
        \<and> (path = [] \<or> last path \<noteq> CHR ''/'') \<and> CHR ''?'' \<notin> set path \<and> CHR ''#'' \<notin> set path
        \<and> (tail = [] \<or> hd tail = CHR ''?'' \<or> hd tail = CHR ''#'') \<longrightarrow>
        ParseGroupUrl (scheme @ ''://'' @ host @ ''/'' @ path @ replicate n CHR ''/'' @ tail) =
          (if path = [] then Inl MissingTargetOrGroup
           else Inr \<lparr>target_aid = host, group_id = path\<rparr>)
        \<and> (CHR ''/'' \<notin> set path \<longrightarrow>
             spec_first_path_segment
               (scheme @ ''://'' @ host @ ''/'' @ path @ replicate n CHR ''/'' @ tail) = path))"
proof -
  have 1: "find_str url ''://'' = None \<longrightarrow> ParseGroupUrl url = Inl NoScheme"
    by (rule impI) (rule find_str_None)
  have 2: "CHR '':'' \<notin> set scheme \<and> find_char rest CHR ''/'' = None \<longrightarrow>
        ParseGroupUrl (scheme @ ''://'' @ rest) = Inl NoPath"
    by (rule impI, erule conjE) (rule ParseGroupUrl_no_slash)
  have 3: "CHR '':'' \<notin> set scheme \<longrightarrow>
        ParseGroupUrl (scheme @ ''://'' @ CHR ''/'' # rest) = Inl NoPath"
    by (rule impI) (rule ParseGroupUrl_empty_host)
  have 4: "CHR '':'' \<notin> set scheme \<and> host \<noteq> [] \<and> CHR ''/'' \<notin> set host
        \<and> (path = [] \<or> last path \<noteq> CHR ''/'') \<and> CHR ''?'' \<notin> set path \<and> CHR ''#'' \<notin> set path
        \<and> (tail = [] \<or> hd tail = CHR ''?'' \<or> hd tail = CHR ''#'') \<longrightarrow>
        ParseGroupUrl (scheme @ ''://'' @ host @ ''/'' @ path @ replicate n CHR ''/'' @ tail) =
          (if path = [] then Inl MissingTargetOrGroup
           else Inr \<lparr>target_aid = host, group_id = path\<rparr>)
        \<and> (CHR ''/'' \<notin> set path \<longrightarrow>
             spec_first_path_segment
               (scheme @ ''://'' @ host @ ''/'' @ path @ replicate n CHR ''/'' @ tail) = path)"
  proof (intro impI conjI; (elim conjE)?)
    assume a: "CHR '':'' \<notin> set scheme" "host \<noteq> []" "CHR ''/'' \<notin> set host"
      "path = [] \<or> last path \<noteq> CHR ''/''" "CHR ''?'' \<notin> set path" "CHR ''#'' \<notin> set path"
      "tail = [] \<or> hd tail = CHR ''?'' \<or> hd tail = CHR ''#''"
    show "ParseGroupUrl (scheme @ ''://'' @ host @ ''/'' @ path @ replicate n CHR ''/'' @ tail) =
          (if path = [] then Inl MissingTargetOrGroup
           else Inr \<lparr>target_aid = host, group_id = path\<rparr>)"
      using a by (rule ParseGroupUrl_shape)
    show "spec_first_path_segment
               (scheme @ ''://'' @ host @ ''/'' @ path @ replicate n CHR ''/'' @ tail) = path"
      if "CHR ''/'' \<notin> set path"
      using a(1,3) that a(5,6,7) by (rule spec_first_path_segment_shape)
  qed
  show ?thesis
    by (rule conjI [OF 1 conjI [OF 2 conjI [OF 3 4]]])
qed

theorem ParseGroupUrl_result_witness:
  "ParseGroupUrl ''group.aid.net/aa6f95b5'' = Inl NoScheme
   \<and> ParseGroupUrl ''https://group.aid.net'' = Inl NoPath
   \<and> ParseGroupUrl ''https:///group.aid.net'' = Inl NoPath
   \<and> ParseGroupUrl ''https://group.aid.net/aa6f95b5//?x=1'' =
        Inr \<lparr>target_aid = ''group.aid.net'', group_id = ''aa6f95b5''\<rparr>
   \<and> spec_first_path_segment ''https://group.aid.net/aa6f95b5//?x=1'' = ''aa6f95b5''"
  using ParseGroupUrl_result [of "''group.aid.net/aa6f95b5''" "''https''" "''group.aid.net''"
      "''group.aid.net''" "''aa6f95b5''" "''?x=1''" 2]
  by (simp add: numeral_2_eq_2)

text \<open>
  The claim as first stated returns the first path segment. For a path of two segments
  the code returns both; and a URL that starts with \<open>://\<close> (no scheme name) is accepted.
\<close>

theorem ParseGroupUrl_first_segment_counterexample:
  "ParseGroupUrl ''https://group.aid.net/a/b'' =
      Inr \<lparr>target_aid = ''group.aid.net'', group_id = ''a/b''\<rparr>
   \<and> spec_first_path_segment ''https://group.aid.net/a/b'' = ''a''
   \<and> ParseGroupUrl ''://group.aid.net/g1'' =
      Inr \<lparr>target_aid = ''group.aid.net'', group_id = ''g1''\<rparr>"
  by (simp add: ParseGroupUrl_def spec_first_path_segment_def strip_trailing_slashes.simps)

subsection \<open>Session manager: members recorded by CreateSession\<close>

text \<open>
  Claim C5 says that an AID appears at most once in a session's member list, for every
  input list, duplicates included. \<^verbatim>\<open>CreateSession\<close> skips empty strings and the
  caller's own AID but pushes every other entry of the input, and \<^verbatim>\<open>InviteAgent\<close>,
  which does look for the AID first, then finds it already there. For the input
  \<open>[bob, bob]\<close> the recorded list holds \<open>bob\<close> twice, with a server-assigned session id
  and with the locally generated one.
\<close>

theorem CreateSession_duplicate_member:
  "members_of (CreateSession alice [''bob.aid.net'', ''bob.aid.net''] (Some ''s1'') ''session-1'' 1000)
     = [(''alice.aid.net'', ''owner''), (''bob.aid.net'', ''member''), (''bob.aid.net'', ''member'')]
   \<and> members_of (CreateSession alice [''bob.aid.net'', ''bob.aid.net''] None ''session-1'' 1000)
     = [(''alice.aid.net'', ''owner''), (''bob.aid.net'', ''member''), (''bob.aid.net'', ''member'')]"
  by (simp add: members_of_def CreateSession_def alice_def emplace_def InviteAgent_def Let_def)

subsection \<open>Heartbeat receive loop: the invite response\<close>

lemma invite_response_fields:
  "resp_inviter_agent_id (invite_response hc invite_req seq) = req_inviter_agent_id invite_req
   \<and> resp_session_id (invite_response hc invite_req seq) = []"
  by (simp add: invite_response_def InviteMessageResp_default_def)

lemma invite_datagram_parsed:
  "InviteMessageReq_Deserialize invite_datagram = Inr invite_request"
  by code_simp

lemma huge_length_swallowed:
  "InviteMessageReq_Deserialize huge_length_datagram = Inl length_error
   \<and> ReceiveLoop_step hc0 huge_length_datagram = (hc0, [])"
  by code_simp

lemma long_datagram_cut:
  "ReceiveLoop_step hc datagram = ReceiveLoop_step hc (take 1536 datagram)"
  by (cases datagram) (simp_all add: ReceiveLoop_step_def)


text \<open>
  Claim C8 says the invite response echoes the inviter agent id and the session id of
  the invite request. The loop assigns \<^verbatim>\<open>resp.inviter_agent_id\<close> but never
  \<^verbatim>\<open>resp.session_id\<close>. On a type-259 datagram from inviter \<open>bob\<close> for session \<open>s1\<close>
  the callback is invoked with the parsed request and the response that is sent carries
  \<open>bob\<close> and an empty session id (the zero length byte after \<open>bob\<close>).
\<close>

theorem ReceiveLoop_invite_response_session_id:
  "InviteMessageReq_Deserialize invite_datagram = Inr invite_request
   \<and> req_session_id invite_request = [0x73, 0x31]
   \<and> snd (ReceiveLoop_step hc0 invite_datagram) =
       [InviteCallback invite_request,
        SendTo (InviteMessageResp_Serialize
                  \<lparr>resp_header = \<lparr>message_mask = 0, message_seq = 1,
                                    message_type = 516, payload_size = 0\<rparr>,
                   resp_agent_id = [0x61], resp_inviter_agent_id = [0x62, 0x6F, 0x62],
                   resp_session_id = [], resp_sign_cookie = 5\<rparr>)
          ''10.0.0.1'' 9000]
   \<and> InviteMessageResp_Serialize
         \<lparr>resp_header = \<lparr>message_mask = 0, message_seq = 1,
                           message_type = 516, payload_size = 0\<rparr>,
          resp_agent_id = [0x61], resp_inviter_agent_id = [0x62, 0x6F, 0x62],
          resp_session_id = [], resp_sign_cookie = 5\<rparr>
       = [0, 1, 2, 4, 0, 0, 1, 0x61, 3, 0x62, 0x6F, 0x62, 0, 0, 0, 0, 0, 0, 0, 0, 5]"
  by code_simp

subsection \<open>Pending requests: exit paths, Close, matching frames\<close>

lemma decimal_simps_small [simp]: "n < 10 \<Longrightarrow> decimal n = [digit_char n]"
  by (subst decimal.simps) simp

declare decimal.simps [simp del]

lemma SendRequest_closed:
  "closed c \<Longrightarrow> SendRequest c t g a p tm now sent during = (Inl ClientClosed, c)"
  by (simp add: SendRequest_def SendRequest_begin_def)

lemma pending_after_wake:
  "map_of (pending_reqs (snd (SendRequest_wake c g a req_id r))) req_id = None"
  by (simp add: SendRequest_wake_def Let_def delete_conv)

lemma fst_SendRequest_begin:
  assumes "\<not> closed c"
  shows "fst (SendRequest_begin c t g a p tm now sent) =
     (case sent of
        SendThrowsStdException \<Rightarrow> Threw SendFailed
      | SendThrowsOther \<Rightarrow> Threw ForeignException
      | SendReturns \<Rightarrow>
          Waiting (fst (NextRequestId c now)) (next_ref c)
            (if tm > 0 then tm else req_timeout_ms c))"
  using assms
  by (simp add: SendRequest_begin_def NextRequestId_def Let_def split: send_outcome.splits)

lemma SendRequest_begin_throw_pending:
  assumes "\<not> closed c"
  shows "map_of (pending_reqs (snd (SendRequest_begin c t g a p tm now SendThrowsStdException)))
           (fst (NextRequestId c now)) = None"
  using assms by (simp add: SendRequest_begin_def NextRequestId_def Let_def delete_conv)

lemma SendRequest_begin_foreign_pending:
  assumes "\<not> closed c"
  shows "map_of (pending_reqs (snd (SendRequest_begin c t g a p tm now SendThrowsOther)))
           (fst (NextRequestId c now)) = Some (next_ref c)"
  using assms by (simp add: SendRequest_begin_def NextRequestId_def Let_def update_conv)

lemma SendRequest_unfold:
  assumes "\<not> closed c"
  shows "SendRequest c t g a p tm now sent during =
     (case sent of
        SendThrowsStdException \<Rightarrow> (Inl SendFailed, snd (SendRequest_begin c t g a p tm now sent))
      | SendThrowsOther \<Rightarrow> (Inl ForeignException, snd (SendRequest_begin c t g a p tm now sent))
      | SendReturns \<Rightarrow>
          SendRequest_wake (fold concurrent during (snd (SendRequest_begin c t g a p tm now sent)))
             g a (fst (NextRequestId c now)) (next_ref c))"
proof -
  obtain b c' where bc: "SendRequest_begin c t g a p tm now sent = (b, c')"
    by (cases "SendRequest_begin c t g a p tm now sent")
  then have "b = (case sent of
        SendThrowsStdException \<Rightarrow> Threw SendFailed
      | SendThrowsOther \<Rightarrow> Threw ForeignException
      | SendReturns \<Rightarrow>
          Waiting (fst (NextRequestId c now)) (next_ref c)
            (if tm > 0 then tm else req_timeout_ms c))"
    using fst_SendRequest_begin [OF assms, of t g a p tm now sent] by simp
  moreover have "c' = snd (SendRequest_begin c t g a p tm now sent)"
    using bc by simp
  ultimately show ?thesis
    unfolding SendRequest_def bc by (cases sent) simp_all
qed

lemma SendRequest_exit_paths:
  "(closed c \<longrightarrow> SendRequest c t g a p tm now sent during = (Inl ClientClosed, c))
   \<and> (\<not> closed c \<and> sent \<noteq> SendThrowsOther \<longrightarrow>
        map_of (pending_reqs (snd (SendRequest c t g a p tm now sent during)))
          (fst (NextRequestId c now)) = None)
   \<and> (\<not> closed c \<and> sent = SendThrowsStdException \<longrightarrow>
        fst (SendRequest c t g a p tm now sent during) = Inl SendFailed)
   \<and> (\<not> closed c \<and> sent = SendThrowsOther \<longrightarrow>
        fst (SendRequest c t g a p tm now sent during) = Inl ForeignException
        \<and> map_of (pending_reqs (snd (SendRequest c t g a p tm now sent during)))
             (fst (NextRequestId c now)) = Some (next_ref c))"
proof (intro conjI impI)
  assume "closed c"
  then show "SendRequest c t g a p tm now sent during = (Inl ClientClosed, c)"
    by (rule SendRequest_closed)
next
  assume a: "\<not> closed c \<and> sent \<noteq> SendThrowsOther"
  then have nc: "\<not> closed c" by simp
  show "map_of (pending_reqs (snd (SendRequest c t g a p tm now sent during)))
          (fst (NextRequestId c now)) = None"
  proof (cases sent)
    case SendThrowsStdException
    then show ?thesis
      using SendRequest_begin_throw_pending [OF nc, of t g a p tm now]
      by (simp add: SendRequest_unfold [OF nc])
  next
    case SendReturns
    then show ?thesis
      by (simp add: SendRequest_unfold [OF nc] pending_after_wake)
  next
    case SendThrowsOther
    then show ?thesis using a by simp
  qed
next
  assume "\<not> closed c \<and> sent = SendThrowsStdException"
  then show "fst (SendRequest c t g a p tm now sent during) = Inl SendFailed"
    by (simp add: SendRequest_unfold)
next
  assume a: "\<not> closed c \<and> sent = SendThrowsOther"
  then show "fst (SendRequest c t g a p tm now sent during) = Inl ForeignException"
    by (simp add: SendRequest_unfold)
  show "map_of (pending_reqs (snd (SendRequest c t g a p tm now sent during)))
             (fst (NextRequestId c now)) = Some (next_ref c)"
    using a SendRequest_begin_foreign_pending [of c t g a p tm now]
    by (simp add: SendRequest_unfold)
qed

lemma gc_waiting_eq:
  "gc_waiting = gc0\<lparr>seq_id := 1,
      pending_reqs := [(''alice-7-1'', 0)],
      objects := (\<lambda>_. PendingRequest_default)(0 := PendingRequest_default\<lparr>pr_request_id := ''alice-7-1''\<rparr>),
      next_ref := 1,
      send_func_calls := [(''group.aid.net'', ''get_cursor'', ''alice-7-1'', ''g1'', [])]\<rparr>"
  by (simp add: gc_waiting_def SendRequest_begin_def NextRequestId_def gc0_def show_int_def
        digit_char_def Let_def)

text \<open>
  Claim C10. On every exit path of \<^verbatim>\<open>SendRequest\<close> the pending map afterwards is to hold
  no entry for the call's request id. \<open>SendRequest_exit_paths\<close> above shows this for the
  response, the timeout, the cancellation, a send function that throws a
  \<^verbatim>\<open>std::exception\<close>, and the closed client (which registers nothing). The clause around
  the call of \<^verbatim>\<open>send_func_\<close> is \<^verbatim>\<open>catch (const std::exception&)\<close> only: when the
  user-supplied send function throws a value of another type, the exception leaves
  \<^verbatim>\<open>SendRequest\<close> with the entry still registered. For the client \<open>gc0\<close> of agent
  \<^verbatim>\<open>alice\<close> at clock 7 the request id is \<^verbatim>\<open>alice-7-1\<close>; after the call the map still
  holds it, whereas after a \<^verbatim>\<open>std::exception\<close> it does not.
\<close>

theorem SendRequest_foreign_exception_keeps_entry:
  "fst (NextRequestId gc0 7) = ''alice-7-1''
   \<and> fst (SendRequest gc0 ''group.aid.net'' ''g1'' ''get_cursor'' [] 0 7 SendThrowsOther [])
       = Inl ForeignException
   \<and> map_of (pending_reqs (snd (SendRequest gc0 ''group.aid.net'' ''g1'' ''get_cursor'' [] 0 7
                                   SendThrowsOther []))) ''alice-7-1'' = Some 0
   \<and> fst (SendRequest gc0 ''group.aid.net'' ''g1'' ''get_cursor'' [] 0 7 SendThrowsStdException [])
       = Inl SendFailed
   \<and> map_of (pending_reqs (snd (SendRequest gc0 ''group.aid.net'' ''g1'' ''get_cursor'' [] 0 7
                                   SendThrowsStdException []))) ''alice-7-1'' = None"
  by (simp add: SendRequest_def SendRequest_begin_def gc0_def NextRequestId_def show_int_def
        digit_char_def Let_def)

lemma cancel_all_keeps:
  "pr_cancelled (objs r) \<Longrightarrow> pr_cancelled (cancel_all reqs objs r)"
  by (induction reqs objs rule: cancel_all.induct) simp_all

lemma cancel_all_in:
  "(k, r) \<in> set reqs \<Longrightarrow> pr_cancelled (cancel_all reqs objs r)"
proof (induction reqs objs rule: cancel_all.induct)
  case (1 objs)
  then show ?case by simp
next
  case (2 req_id pending reqs objs)
  show ?case
  proof (cases "(req_id, pending) = (k, r)")
    case True
    then show ?thesis
      using cancel_all_keeps [of "objs(r := (objs r)\<lparr>pr_cancelled := True\<rparr>)" r reqs]
      by simp
  next
    case False
    then have "(k, r) \<in> set reqs" using 2(2) by auto
    then have "pr_cancelled (cancel_all reqs (objs(pending := (objs pending)\<lparr>pr_cancelled := True\<rparr>)) r)"
      by (rule 2(1))
    then show ?thesis by (simp only: cancel_all.simps)
  qed
qed

lemma call_handler_fields [simp]:
  "objects (call_handler c calls) = objects c"
  "pending_reqs (call_handler c calls) = pending_reqs c"
  "closed (call_handler c calls) = closed c"
  "handler_calls (call_handler c calls) = handler_calls c @ calls"
  by (simp_all add: call_handler_def)

lemma message_push_fields [simp]:
  "objects (message_push c j dump shape) = objects c"
  "pending_reqs (message_push c j dump shape) = pending_reqs c"
  "closed (message_push c j dump shape) = closed c"
  by (simp_all add: message_push_def split: data_shape.splits sum.splits)

lemma message_batch_push_fields [simp]:
  "objects (message_batch_push c j shape) = objects c"
  "pending_reqs (message_batch_push c j shape) = pending_reqs c"
  "closed (message_batch_push c j shape) = closed c"
  by (simp_all add: message_batch_push_def split: sum.splits)

lemma HandleIncoming_unmatched_fields [simp]:
  "objects (snd (HandleIncoming_unmatched c j)) = objects c"
  "pending_reqs (snd (HandleIncoming_unmatched c j)) = pending_reqs c"
  "closed (snd (HandleIncoming_unmatched c j)) = closed c"
  by (simp_all add: HandleIncoming_unmatched_def split: sum.splits option.splits prod.splits)

lemma HandleIncoming_no_pending:
  assumes "pending_reqs c = []"
  shows "objects (snd (HandleIncoming c p)) = objects c
         \<and> pending_reqs (snd (HandleIncoming c p)) = []
         \<and> closed (snd (HandleIncoming c p)) = closed c"
  using assms
  by (cases p) (simp_all add: HandleIncoming_def split: sum.splits)

lemma concurrent_after_Close:
  assumes "closed c" "pending_reqs c = []"
  shows "objects (concurrent s c) = objects c \<and> pending_reqs (concurrent s c) = []
         \<and> closed (concurrent s c)"
  using assms HandleIncoming_no_pending [of c]
  by (cases s) (auto simp: Close_client_def)

lemma fold_concurrent_after_Close:
  assumes "closed c" "pending_reqs c = []"
  shows "objects (fold concurrent during c) = objects c"
  using assms
proof (induction during arbitrary: c)
  case Nil
  then show ?case by simp
next
  case (Cons s during)
  then show ?case using concurrent_after_Close [of c s] by simp
qed

lemma SendRequest_wake_cancelled:
  "pr_cancelled (objects c r) \<Longrightarrow> fst (SendRequest_wake c g a k r) = Inl (RequestCancelled k)"
  by (simp add: SendRequest_wake_def Let_def)

lemma SendRequest_wake_timeout:
  "\<not> pr_cancelled (objects c r) \<Longrightarrow> \<not> pr_ready (objects c r) \<Longrightarrow>
   fst (SendRequest_wake c g a k r) = Inl (RequestTimeout a g)"
  by (simp add: SendRequest_wake_def Let_def)

lemma Close_client_not_closed:
  assumes "\<not> closed c"
  shows "closed (Close_client c)" "pending_reqs (Close_client c) = []"
    "objects (Close_client c) = cancel_all (pending_reqs c) (objects c)"
    "store_close_calls (Close_client c) = store_close_calls c + (if has_cursor_store c then 1 else 0)"
  using assms by (simp_all add: Close_client_def Let_def)

lemma Close_client_closed: "closed c \<Longrightarrow> Close_client c = c"
  by (simp add: Close_client_def)

lemma closed_Close_client: "closed (Close_client c)"
  by (simp add: Close_client_def Let_def)

text \<open>
  Claim C7. \<^verbatim>\<open>Close\<close> on a client that is not closed sets the closed flag, marks every
  request in the pending map cancelled and empties the map, then calls \<^verbatim>\<open>Close\<close> on the
  cursor store once (when there is one). A \<^verbatim>\<open>SendRequest\<close> that was waiting at that
  time finds its wait predicate true and, whatever arrives afterwards, ends with the
  cancellation error, which names the request id; a wait that ends with neither flag set
  ends with the timeout error instead. A second \<^verbatim>\<open>Close\<close> changes nothing.
\<close>

theorem Close_cancels_pending:
  "(\<not> closed c \<longrightarrow>
      closed (Close_client c) \<and> pending_reqs (Close_client c) = []
      \<and> store_close_calls (Close_client c)
          = store_close_calls c + (if has_cursor_store c then 1 else 0)
      \<and> ((req_id, pending) \<in> set (pending_reqs c) \<longrightarrow>
            pr_cancelled (objects (Close_client c) pending)
            \<and> fst (SendRequest_wake (fold concurrent during (Close_client c)) gid action req_id pending)
                = Inl (RequestCancelled req_id)))
   \<and> Close_client (Close_client c) = Close_client c
   \<and> (\<not> pr_cancelled (objects c pending) \<and> \<not> pr_ready (objects c pending) \<longrightarrow>
        fst (SendRequest_wake c gid action req_id pending) = Inl (RequestTimeout action gid))"
proof (intro conjI impI)
  assume nc: "\<not> closed c"
  show "closed (Close_client c)" "pending_reqs (Close_client c) = []"
    "store_close_calls (Close_client c) = store_close_calls c + (if has_cursor_store c then 1 else 0)"
    using Close_client_not_closed [OF nc] by simp_all
  assume mem: "(req_id, pending) \<in> set (pending_reqs c)"
  show canc: "pr_cancelled (objects (Close_client c) pending)"
    using Close_client_not_closed(3) [OF nc] cancel_all_in [OF mem] by simp
  have "objects (fold concurrent during (Close_client c)) = objects (Close_client c)"
    using Close_client_not_closed(1,2) [OF nc] by (rule fold_concurrent_after_Close)
  then show "fst (SendRequest_wake (fold concurrent during (Close_client c)) gid action req_id pending)
                = Inl (RequestCancelled req_id)"
    using canc by (simp add: SendRequest_wake_cancelled)
next
  show "Close_client (Close_client c) = Close_client c"
    using closed_Close_client by (rule Close_client_closed)
next
  assume "\<not> pr_cancelled (objects c pending) \<and> \<not> pr_ready (objects c pending)"
  then show "fst (SendRequest_wake c gid action req_id pending) = Inl (RequestTimeout action gid)"
    by (simp add: SendRequest_wake_timeout)
qed

theorem Close_cancels_pending_witness:
  "\<not> closed gc_waiting
   \<and> (''alice-7-1'', 0) \<in> set (pending_reqs gc_waiting)
   \<and> pr_cancelled (objects (Close_client gc_waiting) 0)
   \<and> fst (SendRequest_wake (fold concurrent [Incoming (reply_payload ''alice-7-1'' ''late'')] (Close_client gc_waiting))
            ''g1'' ''get_cursor'' ''alice-7-1'' 0) = Inl (RequestCancelled ''alice-7-1'')
   \<and> store_close_calls (Close_client gc_waiting) = 1
   \<and> \<not> pr_cancelled (objects gc_waiting 0) \<and> \<not> pr_ready (objects gc_waiting 0)
   \<and> fst (SendRequest_wake gc_waiting ''g1'' ''get_cursor'' ''alice-7-1'' 0)
       = Inl (RequestTimeout ''get_cursor'' ''g1'')"
  using Close_cancels_pending
          [of gc_waiting "''alice-7-1''" 0 "[Incoming (reply_payload ''alice-7-1'' ''late'')]" "''g1''" "''get_cursor''"]
  by (simp add: gc_waiting_eq gc0_def PendingRequest_default_def)














subsection \<open>Binary framing: what the decoders check\<close>

lemma bit_FF_int: "bit (0xFF :: int) n \<longleftrightarrow> n < 8"
proof -
  have "(0xFF :: int) = mask 8" by (simp add: mask_eq_exp_minus_1)
  then show ?thesis by (simp only: bit_mask_iff) auto
qed

lemma ReadBE32_Cons: "ReadBE32 (a # b # c # d # rest) = be32 a b c d"
  by (simp add: ReadBE32_def be32_def)

lemma ReadBE16_Cons: "ReadBE16 (a # b # rest) = be16 a b"
  by (simp add: ReadBE16_def be16_def)

lemma be32_byte3: "ucast (drop_bit 24 (be32 a b c d) AND 0xFF) = a"
  unfolding be32_def by (rule bit_word_eqI) (auto simp: bit_simps bit_FF_int dest: bit_imp_le_length)

lemma be32_byte2: "ucast (drop_bit 16 (be32 a b c d) AND 0xFF) = b"
  unfolding be32_def by (rule bit_word_eqI) (auto simp: bit_simps bit_FF_int dest: bit_imp_le_length)

lemma be32_byte1: "ucast (drop_bit 8 (be32 a b c d) AND 0xFF) = c"
  unfolding be32_def by (rule bit_word_eqI) (auto simp: bit_simps bit_FF_int dest: bit_imp_le_length)

lemma be32_byte0: "ucast (be32 a b c d AND 0xFF) = d"
  unfolding be32_def by (rule bit_word_eqI) (auto simp: bit_simps bit_FF_int dest: bit_imp_le_length)

lemma be32_inj: "be32 a b c d = be32 a' b' c' d' \<longleftrightarrow> a = a' \<and> b = b' \<and> c = c' \<and> d = d'"
  by (metis be32_byte0 be32_byte1 be32_byte2 be32_byte3)

lemma split8: "(x :: 'a::len word) = take_bit 8 x OR push_bit 8 (drop_bit 8 x)"
  by (metis bits_ident or.commute disjunctive_add bit_push_bit_iff bit_take_bit_iff not_less)

lemma low_byte32: "ucast (ucast ((x::u32) AND 0xFF) :: u8) = (take_bit 8 x :: u32)"
  by (rule bit_word_eqI) (auto simp: bit_simps bit_FF_int)

lemma low_byte16: "ucast (ucast ((x::u16) AND 0xFF) :: u8) = (take_bit 8 x :: u16)"
  by (rule bit_word_eqI) (auto simp: bit_simps bit_FF_int)

lemma top_byte32: "take_bit 8 (drop_bit 24 (v::u32)) = drop_bit 24 v"
  by (rule bit_word_eqI) (auto simp: bit_simps dest: bit_imp_le_length)

lemma top_byte16: "take_bit 8 (drop_bit 8 (v::u16)) = drop_bit 8 v"
  by (rule bit_word_eqI) (auto simp: bit_simps dest: bit_imp_le_length)

lemma be32_bytes:
  "be32 (ucast (drop_bit 24 v AND 0xFF)) (ucast (drop_bit 16 v AND 0xFF))
        (ucast (drop_bit 8 v AND 0xFF)) (ucast (v AND 0xFF)) = v"
proof -
  define t0 t1 t2 t3 where "t0 = take_bit 8 v" and "t1 = take_bit 8 (drop_bit 8 v)"
    and "t2 = take_bit 8 (drop_bit 16 v)" and "t3 = take_bit 8 (drop_bit 24 v)"
  have d24: "drop_bit 24 v = t3" by (simp add: t3_def top_byte32)
  have "drop_bit 16 v = t2 OR push_bit 8 (drop_bit 8 (drop_bit 16 v))"
    unfolding t2_def by (rule split8)
  then have d16: "drop_bit 16 v = t2 OR push_bit 8 t3"
    using d24 by (simp add: drop_bit_drop_bit)
  have "drop_bit 8 v = t1 OR push_bit 8 (drop_bit 8 (drop_bit 8 v))"
    unfolding t1_def by (rule split8)
  then have d8: "drop_bit 8 v = t1 OR push_bit 8 (t2 OR push_bit 8 t3)"
    using d16 by (simp add: drop_bit_drop_bit)
  have "v = t0 OR push_bit 8 (drop_bit 8 v)"
    unfolding t0_def by (rule split8)
  then have "v = t0 OR push_bit 8 (t1 OR push_bit 8 (t2 OR push_bit 8 t3))"
    using d8 by simp
  then have v: "v = t0 OR (push_bit 8 t1 OR (push_bit 16 t2 OR push_bit 24 t3))"
    by (simp add: push_bit_or push_bit_push_bit)
  have "be32 (ucast (drop_bit 24 v AND 0xFF)) (ucast (drop_bit 16 v AND 0xFF))
        (ucast (drop_bit 8 v AND 0xFF)) (ucast (v AND 0xFF))
      = push_bit 24 t3 OR push_bit 16 t2 OR push_bit 8 t1 OR t0"
    by (simp only: be32_def low_byte32 t0_def t1_def t2_def t3_def)
  also have "\<dots> = t0 OR (push_bit 8 t1 OR (push_bit 16 t2 OR push_bit 24 t3))"
    by (simp only: or.commute or.left_commute or.assoc)
  finally show ?thesis using v by simp
qed

lemma be16_bytes: "be16 (ucast (drop_bit 8 v AND 0xFF)) (ucast (v AND 0xFF)) = v"
proof -
  have "v = take_bit 8 v OR push_bit 8 (drop_bit 8 v)" by (rule split8)
  then have "v = take_bit 8 v OR push_bit 8 (take_bit 8 (drop_bit 8 v))"
    by (simp only: top_byte16)
  moreover have "be16 (ucast (drop_bit 8 v AND 0xFF)) (ucast (v AND 0xFF))
      = push_bit 8 (take_bit 8 (drop_bit 8 v)) OR take_bit 8 v"
    by (simp only: be16_def low_byte16)
  ultimately show ?thesis by (simp only: or.commute)
qed

lemma SerializeHeader_bytes:
  "SerializeHeader [] h =
     [magic1 h, magic2 h,
      ucast (drop_bit 8 (version h) AND 0xFF), ucast (version h AND 0xFF),
      ucast (drop_bit 24 (flags h) AND 0xFF), ucast (drop_bit 16 (flags h) AND 0xFF),
      ucast (drop_bit 8 (flags h) AND 0xFF), ucast (flags h AND 0xFF),
      ucast (drop_bit 8 (msg_type h) AND 0xFF), ucast (msg_type h AND 0xFF),
      ucast (drop_bit 24 (msg_seq h) AND 0xFF), ucast (drop_bit 16 (msg_seq h) AND 0xFF),
      ucast (drop_bit 8 (msg_seq h) AND 0xFF), ucast (msg_seq h AND 0xFF),
      content_type h, compressed h,
      ucast (drop_bit 24 (reserved h) AND 0xFF), ucast (drop_bit 16 (reserved h) AND 0xFF),
      ucast (drop_bit 8 (reserved h) AND 0xFF), ucast (reserved h AND 0xFF),
      ucast (drop_bit 24 (crc32 h) AND 0xFF), ucast (drop_bit 16 (crc32 h) AND 0xFF),
      ucast (drop_bit 8 (crc32 h) AND 0xFF), ucast (crc32 h AND 0xFF),
      ucast (drop_bit 24 (payload_length h) AND 0xFF), ucast (drop_bit 16 (payload_length h) AND 0xFF),
      ucast (drop_bit 8 (payload_length h) AND 0xFF), ucast (payload_length h AND 0xFF)]"
  by (simp add: SerializeHeader_def WriteBE16_def WriteBE32_def Let_def)

lemma length_SerializeHeader: "length (SerializeHeader [] h) = 28"
  by (simp add: SerializeHeader_bytes)

lemma DeserializeHeader_SerializeHeader:
  "DeserializeHeader (SerializeHeader [] h @ payload) = h"
  by (simp add: SerializeHeader_bytes DeserializeHeader_def ReadBE32_Cons ReadBE16_Cons
        be32_bytes be16_bytes)

lemma decode_fails_magic:
  "data ! 0 \<noteq> 0x4D \<or> data ! 1 \<noteq> 0x55 \<Longrightarrow> decode_fails crc inflate data"
  by (auto simp: decode_fails_def DecodeWssBinaryBuffer_def DecodeWssBinaryMessage_def
        DeserializeHeader_def Let_def)

lemma decode_fails_crc:
  "crc (drop 28 data) \<noteq> crc32 (DeserializeHeader data) \<Longrightarrow> decode_fails crc inflate data"
  by (simp add: decode_fails_def DecodeWssBinaryBuffer_def DecodeWssBinaryMessage_def
        WssBinaryHeader_SIZE_def Let_def)

lemma decode_fails_length:
  "length data - 28 \<noteq> unat (payload_length (DeserializeHeader data)) \<Longrightarrow>
   decode_fails crc inflate data"
  by (simp add: decode_fails_def DecodeWssBinaryBuffer_def DecodeWssBinaryMessage_def
        WssBinaryHeader_SIZE_def Let_def)

lemma decode_fails_short: "length data < 28 \<Longrightarrow> decode_fails crc inflate data"
  by (simp add: decode_fails_def DecodeWssBinaryBuffer_def DecodeWssBinaryMessage_def
        WssBinaryHeader_SIZE_def)

lemma drop_update_before: "i < n \<Longrightarrow> drop n (xs[i := x]) = drop n xs"
  by (simp add: drop_update_cancel)

lemma crc_field:
  "28 \<le> length data \<Longrightarrow>
   crc32 (DeserializeHeader data) = be32 (data ! 20) (data ! 21) (data ! 22) (data ! 23)"
  by (simp add: DeserializeHeader_def ReadBE32_def be32_def)

lemma length_field:
  "28 \<le> length data \<Longrightarrow>
   payload_length (DeserializeHeader data) = be32 (data ! 24) (data ! 25) (data ! 26) (data ! 27)"
  by (simp add: DeserializeHeader_def ReadBE32_def be32_def)

lemma be32_update:
  assumes "k \<le> i" "i < k + 4" and "b \<noteq> xs ! i" and "k + 3 < length xs"
  shows "be32 (xs[i := b] ! k) (xs[i := b] ! (k + 1)) (xs[i := b] ! (k + 2)) (xs[i := b] ! (k + 3))
         \<noteq> be32 (xs ! k) (xs ! (k + 1)) (xs ! (k + 2)) (xs ! (k + 3))"
proof -
  have "xs[i := b] ! i = b" using assms by auto
  then have ne: "xs[i := b] ! i \<noteq> xs ! i" using assms(3) by simp
  have "i = k \<or> i = k + 1 \<or> i = k + 2 \<or> i = k + 3" using assms(1,2) by arith
  then show ?thesis
    using ne unfolding be32_inj by auto
qed


lemma EncodeWssBinaryBuffer_encoded:
  "EncodeWssBinaryBuffer crc payload header_in = encoded crc header_in payload"
  by (simp add: EncodeWssBinaryBuffer_def encoded_def)

lemma length_encoded: "length (encoded crc h payload) = 28 + length payload"
  by (simp add: encoded_def length_SerializeHeader)

lemma drop_encoded: "drop 28 (encoded crc h payload) = payload"
  by (simp add: encoded_def length_SerializeHeader)

lemma header_encoded:
  "DeserializeHeader (encoded crc h payload) =
     h\<lparr>magic1 := 0x4D, magic2 := 0x55, crc32 := crc payload,
       payload_length := of_nat (length payload)\<rparr>"
  by (simp add: encoded_def DeserializeHeader_SerializeHeader)

lemma mutate_magic:
  assumes "i < 2" and "b \<noteq> encoded crc h payload ! i"
  shows "decode_fails crc inflate ((encoded crc h payload)[i := b])"
proof -
  have "encoded crc h payload ! 0 = 0x4D" "encoded crc h payload ! 1 = 0x55"
    by (simp_all add: encoded_def SerializeHeader_bytes)
  moreover have "(encoded crc h payload)[i := b] ! i = b"
    using assms(1) by (auto simp: length_encoded)
  moreover have "i = 0 \<or> i = 1" using assms(1) by arith
  ultimately have "(encoded crc h payload)[i := b] ! 0 \<noteq> 0x4D
      \<or> (encoded crc h payload)[i := b] ! 1 \<noteq> 0x55"
    using assms(2) by auto
  then show ?thesis by (rule decode_fails_magic)
qed

lemma mutate_crc:
  assumes "20 \<le> i" "i < 24" and "b \<noteq> encoded crc h payload ! i"
  shows "decode_fails crc inflate ((encoded crc h payload)[i := b])"
proof -
  let ?f = "encoded crc h payload"
  have len: "28 \<le> length ?f" "28 \<le> length (?f[i := b])" by (simp_all add: length_encoded)
  have i: "i < 20 + 4" using assms(2) by simp
  have "be32 (?f[i := b] ! 20) (?f[i := b] ! (20 + 1)) (?f[i := b] ! (20 + 2)) (?f[i := b] ! (20 + 3))
      \<noteq> be32 (?f ! 20) (?f ! (20 + 1)) (?f ! (20 + 2)) (?f ! (20 + 3))"
    using assms(1) i assms(3) by (rule be32_update) (simp add: length_encoded)
  then have "crc32 (DeserializeHeader (?f[i := b])) \<noteq> crc32 (DeserializeHeader ?f)"
    by (simp add: crc_field len)
  moreover have "drop 28 (?f[i := b]) = payload"
    using assms(2) by (simp add: drop_update_before drop_encoded)
  ultimately have "crc (drop 28 (?f[i := b])) \<noteq> crc32 (DeserializeHeader (?f[i := b]))"
    by (simp add: header_encoded)
  then show ?thesis by (rule decode_fails_crc)
qed

lemma mutate_length:
  assumes "24 \<le> i" "i < 28" and "b \<noteq> encoded crc h payload ! i"
  shows "decode_fails crc inflate ((encoded crc h payload)[i := b])"
proof -
  let ?f = "encoded crc h payload"
  have len: "28 \<le> length ?f" "28 \<le> length (?f[i := b])" by (simp_all add: length_encoded)
  have i: "i < 24 + 4" using assms(2) by simp
  have "be32 (?f[i := b] ! 24) (?f[i := b] ! (24 + 1)) (?f[i := b] ! (24 + 2)) (?f[i := b] ! (24 + 3))
      \<noteq> be32 (?f ! 24) (?f ! (24 + 1)) (?f ! (24 + 2)) (?f ! (24 + 3))"
    using assms(1) i assms(3) by (rule be32_update) (simp add: length_encoded)
  then have "payload_length (DeserializeHeader (?f[i := b]))
      \<noteq> payload_length (DeserializeHeader ?f)"
    by (simp add: length_field len)
  then have ne: "payload_length (DeserializeHeader (?f[i := b])) \<noteq> of_nat (length payload)"
    by (simp add: header_encoded)
  have "length (?f[i := b]) - 28 \<noteq> unat (payload_length (DeserializeHeader (?f[i := b])))"
  proof
    assume "length (?f[i := b]) - 28 = unat (payload_length (DeserializeHeader (?f[i := b])))"
    then have "length payload = unat (payload_length (DeserializeHeader (?f[i := b])))"
      by (simp add: length_encoded)
    then have "of_nat (length payload) = payload_length (DeserializeHeader (?f[i := b]))"
      by simp
    then show False using ne by simp
  qed
  then show ?thesis by (rule decode_fails_length)
qed

lemma mutate_payload:
  assumes "i < length payload" and "crc (payload[i := b]) \<noteq> crc payload"
  shows "decode_fails crc inflate ((encoded crc h payload)[28 + i := b])"
proof -
  let ?g = "(encoded crc h payload)[28 + i := b]"
  have g: "?g = SerializeHeader []
       (h\<lparr>magic1 := 0x4D, magic2 := 0x55, crc32 := crc payload,
          payload_length := of_nat (length payload)\<rparr>) @ payload[i := b]"
    by (simp add: encoded_def list_update_append length_SerializeHeader)
  have "crc32 (DeserializeHeader ?g) = crc payload"
    unfolding g by (simp add: DeserializeHeader_SerializeHeader)
  moreover have "drop 28 ?g = payload[i := b]"
    unfolding g by (simp add: length_SerializeHeader)
  ultimately show ?thesis using assms(2) by (intro decode_fails_crc) simp
qed

lemma EncodeWssBinaryMessage_encoded:
  "EncodeWssBinaryMessage use_zlib crc deflate json_data seq =
     (if use_zlib \<and> 512 \<le> length json_data
      then (if deflate json_data = [] then []
            else encoded crc
                   (WssBinaryHeader_default\<lparr>msg_type := 1, msg_seq := seq, content_type := 1,
                                             compressed := 1\<rparr>)
                   (deflate json_data))
      else encoded crc
             (WssBinaryHeader_default\<lparr>msg_type := 1, msg_seq := seq, content_type := 1,
                                       compressed := 0\<rparr>)
             json_data)"
  by (simp add: EncodeWssBinaryMessage_def encoded_def WssBinaryHeader_default_def Let_def)

lemma accepted_checks:
  assumes "\<not> decode_fails crc inflate data"
  shows "28 \<le> length data \<and> data ! 0 = 0x4D \<and> data ! 1 = 0x55
       \<and> length data - 28 = unat (payload_length (DeserializeHeader data))
       \<and> crc (drop 28 data) = crc32 (DeserializeHeader data)"
  using assms decode_fails_short [of data crc inflate] decode_fails_magic [of data crc inflate]
    decode_fails_length [of data crc inflate] decode_fails_crc [of crc data inflate]
  by (cases "28 \<le> length data") auto

lemma message_accepted_compressed:
  assumes "DecodeWssBinaryMessage crc inflate data \<noteq> []"
  shows "compressed (DeserializeHeader data) \<in> {0, 1}"
  using assms by (auto simp: DecodeWssBinaryMessage_def Let_def split: if_splits)

text \<open>
  Claim C3 (as amended). Whatever the checksum function and decompressor of the build:
  a buffer that either decoder accepts has at least 28 bytes, the magic bytes
  \<open>0x4D 0x55\<close>, a payload whose length is the header's \<^verbatim>\<open>payload_length\<close> and whose
  checksum is the header's CRC; \<^verbatim>\<open>DecodeWssBinaryMessage\<close> accepts it only with a
  compressed flag of 0 or 1. Both encoders produce a header with magic, CRC and length
  filled in, followed by the payload. In such a frame, changing any one byte of the
  magic (bytes 0 and 1), of the CRC field (20 to 23) or of the length field (24 to 27)
  makes both decoders fail, and so does changing a payload byte whenever that changes
  the checksum of the payload.
\<close>

theorem frame_decode_checks:
  "(DecodeWssBinaryBuffer crc inflate data \<noteq> None \<or> DecodeWssBinaryMessage crc inflate data \<noteq> [] \<longrightarrow>
       28 \<le> length data \<and> data ! 0 = 0x4D \<and> data ! 1 = 0x55
       \<and> length data - 28 = unat (payload_length (DeserializeHeader data))
       \<and> crc (drop 28 data) = crc32 (DeserializeHeader data))
   \<and> (DecodeWssBinaryMessage crc inflate data \<noteq> [] \<longrightarrow>
        compressed (DeserializeHeader data) \<in> {0, 1})
   \<and> EncodeWssBinaryBuffer crc payload h = encoded crc h payload
   \<and> (EncodeWssBinaryMessage use_zlib crc deflate json_data seq = []
        \<or> EncodeWssBinaryMessage use_zlib crc deflate json_data seq
            = encoded crc
                (WssBinaryHeader_default\<lparr>msg_type := 1, msg_seq := seq, content_type := 1,
                    compressed := (if use_zlib \<and> 512 \<le> length json_data then 1 else 0)\<rparr>)
                (if use_zlib \<and> 512 \<le> length json_data then deflate json_data else json_data))
   \<and> ((i < 2 \<or> 20 \<le> i \<and> i < 28) \<and> b \<noteq> encoded crc h payload ! i \<longrightarrow>
        decode_fails crc inflate ((encoded crc h payload)[i := b]))
   \<and> (i < length payload \<and> crc (payload[i := b]) \<noteq> crc payload \<longrightarrow>
        decode_fails crc inflate ((encoded crc h payload)[28 + i := b]))"
proof (intro conjI impI)
  assume "DecodeWssBinaryBuffer crc inflate data \<noteq> None \<or> DecodeWssBinaryMessage crc inflate data \<noteq> []"
  then have nf: "\<not> decode_fails crc inflate data" by (auto simp: decode_fails_def)
  show "28 \<le> length data" "data ! 0 = 0x4D" "data ! 1 = 0x55"
    "length data - 28 = unat (payload_length (DeserializeHeader data))"
    "crc (drop 28 data) = crc32 (DeserializeHeader data)"
    using accepted_checks [OF nf] by simp_all
next
  assume "DecodeWssBinaryMessage crc inflate data \<noteq> []"
  then show "compressed (DeserializeHeader data) \<in> {0, 1}"
    by (rule message_accepted_compressed)
next
  show "EncodeWssBinaryBuffer crc payload h = encoded crc h payload"
    by (rule EncodeWssBinaryBuffer_encoded)
next
  show "EncodeWssBinaryMessage use_zlib crc deflate json_data seq = []
        \<or> EncodeWssBinaryMessage use_zlib crc deflate json_data seq
            = encoded crc
                (WssBinaryHeader_default\<lparr>msg_type := 1, msg_seq := seq, content_type := 1,
                    compressed := (if use_zlib \<and> 512 \<le> length json_data then 1 else 0)\<rparr>)
                (if use_zlib \<and> 512 \<le> length json_data then deflate json_data else json_data)"
    by (simp add: EncodeWssBinaryMessage_encoded)
next
  assume a: "(i < 2 \<or> 20 \<le> i \<and> i < 28) \<and> b \<noteq> encoded crc h payload ! i"
  then have b: "b \<noteq> encoded crc h payload ! i" by (rule conjunct2)
  from a have "i < 2 \<or> (20 \<le> i \<and> i < 24) \<or> (24 \<le> i \<and> i < 28)" by arith
  then show "decode_fails crc inflate ((encoded crc h payload)[i := b])"
  proof (elim disjE conjE)
    assume "i < 2"
    then show ?thesis using b by (rule mutate_magic)
  next
    assume "20 \<le> i" "i < 24"
    then show ?thesis using b by (rule mutate_crc)
  next
    assume "24 \<le> i" "i < 28"
    then show ?thesis using b by (rule mutate_length)
  qed
next
  assume a: "i < length payload \<and> crc (payload[i := b]) \<noteq> crc payload"
  show "decode_fails crc inflate ((encoded crc h payload)[28 + i := b])"
    using conjunct1 [OF a] conjunct2 [OF a] by (rule mutate_payload)
qed

lemma crc_hi: "ComputeCRC32 [0x68, 0x69] = 0x85EB5AA2"
  by code_simp

lemma crc_hj: "ComputeCRC32 [0x68, 0x6A] \<noteq> 0x85EB5AA2"
  by code_simp

theorem frame_decode_checks_witness:
  "DecodeWssBinaryBuffer ComputeCRC32 ZlibDecompress_unavailable
       (encoded ComputeCRC32 WssBinaryHeader_default [0x68, 0x69]) \<noteq> None
   \<and> crc32 (DeserializeHeader (encoded ComputeCRC32 WssBinaryHeader_default [0x68, 0x69])) = 0x85EB5AA2
   \<and> (0x00 :: u8) \<noteq> encoded ComputeCRC32 WssBinaryHeader_default [0x68, 0x69] ! 20
   \<and> decode_fails ComputeCRC32 ZlibDecompress_unavailable
        ((encoded ComputeCRC32 WssBinaryHeader_default [0x68, 0x69])[20 := 0x00])
   \<and> ComputeCRC32 ([0x68, 0x69][1 := 0x6A]) \<noteq> ComputeCRC32 [0x68, 0x69]
   \<and> decode_fails ComputeCRC32 ZlibDecompress_unavailable
        ((encoded ComputeCRC32 WssBinaryHeader_default [0x68, 0x69])[28 + 1 := 0x6A])"
  using frame_decode_checks [where crc = ComputeCRC32 and inflate = ZlibDecompress_unavailable
      and data = "encoded ComputeCRC32 WssBinaryHeader_default [0x68, 0x69]"
      and h = WssBinaryHeader_default and payload = "[0x68, 0x69]" and i = 20 and b = 0]
    frame_decode_checks [where crc = ComputeCRC32 and inflate = ZlibDecompress_unavailable
      and h = WssBinaryHeader_default and payload = "[0x68, 0x69]" and i = 1 and b = "0x6A"]
  by (simp add: crc_hi crc_hj DecodeWssBinaryBuffer_def header_encoded drop_encoded length_encoded
        WssBinaryHeader_SIZE_def WssBinaryHeader_default_def Let_def)
     (simp add: encoded_def SerializeHeader_bytes crc_hi)

text \<open>
  The claim as first stated has every header byte protected. The checksum covers the
  payload only, and the version, flags, message type, sequence number, content type and
  reserved fields are not checked: changing byte 13 (the low byte of \<^verbatim>\<open>msg_seq\<close>) of an
  encoded frame still decodes, with either decoder, to the same payload. And
  \<^verbatim>\<open>DecodeWssBinaryBuffer\<close> accepts a compressed flag of 2.
\<close>

theorem header_mutation_counterexample:
  "EncodeWssBinaryBuffer ComputeCRC32 [0x68, 0x69] WssBinaryHeader_default ! 13 = 0
   \<and> DecodeWssBinaryBuffer ComputeCRC32 ZlibDecompress_unavailable
        ((EncodeWssBinaryBuffer ComputeCRC32 [0x68, 0x69] WssBinaryHeader_default)[13 := 1])
       = Some \<lparr>frame_header = WssBinaryHeader_default
                  \<lparr>msg_seq := 1, crc32 := 0x85EB5AA2, payload_length := 2\<rparr>,
               frame_payload = [0x68, 0x69]\<rparr>
   \<and> DecodeWssBinaryMessage ComputeCRC32 ZlibDecompress_unavailable
        ((EncodeWssBinaryMessage False ComputeCRC32 ZlibCompress_unavailable [0x68, 0x69] 0)[13 := 1])
       = [0x68, 0x69]
   \<and> DecodeWssBinaryBuffer ComputeCRC32 ZlibDecompress_unavailable
        ((EncodeWssBinaryBuffer ComputeCRC32 [0x68, 0x69] WssBinaryHeader_default)[15 := 2])
       = Some \<lparr>frame_header = WssBinaryHeader_default
                  \<lparr>compressed := 2, crc32 := 0x85EB5AA2, payload_length := 2\<rparr>,
               frame_payload = [0x68, 0x69]\<rparr>"
  by code_simp

text \<open>
  In the build without zlib the table of the source is not the CRC-32 table, and the
  checksum it computes does not tell these two payloads apart: a frame whose first
  payload byte is changed from 98 to 77 is still accepted.
\<close>

lemma table_crc_collision:
  "ComputeCRC32 [98, 13, 19, 74] = ComputeCRC32 [77, 13, 19, 74]
   \<and> DecodeWssBinaryBuffer ComputeCRC32 ZlibDecompress_unavailable
        ((EncodeWssBinaryBuffer ComputeCRC32 [98, 13, 19, 74] WssBinaryHeader_default)[28 := 77])
       \<noteq> None"
  by code_simp

subsection \<open>Incremental sync\<close>



lemma raise_cursor_None: "raise_cursor cursor None gid = cursor"
  by (simp add: raise_cursor_def)


lemma AckEvents_store:
  "cursor_store (snd (AckEvents send gid st event_id)) =
     (case fst (AckEvents send gid st event_id) of
        Inl e \<Rightarrow> cursor_store st
      | Inr u \<Rightarrow> map_option (\<lambda>store. SaveEventCursor store gid event_id) (cursor_store st))"
  by (auto simp: AckEvents_def SendRequest_Check_def split: prod.splits sum.splits)























end
